theory Spec2Isabelle
  imports Complex_Main
begin

section \<open>Exceptions and outcomes\<close>

text \<open>
  The JavaScript of the repository raises two kinds of exception on the paths modelled
  here: \<open>TypeError\<close> (a property read on \<open>null\<close> or \<open>undefined\<close>) and
  \<open>SyntaxError\<close> (\<open>JSON.parse\<close> on a text that is not JSON). An exception does not
  roll back the assignments made before it, so a method that throws returns
  \<open>Inl (error, state at the throw)\<close>; a method that returns normally gives \<open>Inr state\<close>.
\<close>

datatype js_error = TypeError | SyntaxError

type_synonym 's outcome = "(js_error \<times> 's) + 's"

definition and_then :: "'s outcome \<Rightarrow> ('s \<Rightarrow> 's outcome) \<Rightarrow> 's outcome" where
  "and_then r f = (case r of Inl x \<Rightarrow> Inl x | Inr s \<Rightarrow> f s)"

definition final :: "'s outcome \<Rightarrow> 's" where
  "final r = (case r of Inl x \<Rightarrow> snd x | Inr s \<Rightarrow> s)"

definition threw :: "'s outcome \<Rightarrow> js_error option" where
  "threw r = (case r of Inl x \<Rightarrow> Some (fst x) | Inr s \<Rightarrow> None)"

section \<open>The runtime's string conversions\<close>

text \<open>
  A template literal applies \<open>ToString\<close> to its values. Station ids are array indices
  (non-negative integers), printed in decimal; \<open>currentCabinNumber\<close> is \<open>null\<close> until
  the first visit starts.
\<close>

datatype js_value = Null | Num nat

definition digit_char :: "nat \<Rightarrow> char" where
  "digit_char d = ''0123456789'' ! (d mod 10)"

fun show_nat :: "nat \<Rightarrow> string" where
  "show_nat n =
     (if n < 10 then [digit_char n] else show_nat (n div 10) @ [digit_char (n mod 10)])"

declare show_nat.simps [simp del]

fun ToString :: "js_value \<Rightarrow> string" where
  "ToString Null = ''null''"
| "ToString (Num n) = show_nat n"

subsection \<open>JSON.stringify and JSON.parse on arrays of strings\<close>

text \<open>
  The progress store writes \<open>JSON.stringify(visited)\<close> for an array of strings and reads
  it back with \<open>JSON.parse\<close>. Both are built into the runtime; they are modelled here on
  the JSON texts that are arrays of string literals, with the escapes of the JSON grammar
  and white space between tokens. Strings are sequences of 8-bit code units, so a
  \<open>\uXXXX\<close> escape above \<open>00ff\<close> has no counterpart. A text outside this fragment that
  is nevertheless JSON (a number, an object, a nested array) is reported as
  \<open>SyntaxError\<close> by the model; no statement below evaluates \<open>JSON_parse\<close> at such a
  text.
\<close>

definition hex_digit :: "nat \<Rightarrow> char" where
  "hex_digit d = ''0123456789abcdef'' ! (d mod 16)"

fun position :: "char \<Rightarrow> string \<Rightarrow> nat option" where
  "position c [] = None"
| "position c (d # ds) = (if c = d then Some 0 else map_option Suc (position c ds))"

definition hex_val :: "char \<Rightarrow> nat option" where
  "hex_val c =
     (case position c ''0123456789abcdef'' of
        Some n \<Rightarrow> Some n
      | None \<Rightarrow> map_option (\<lambda>n. n + 10) (position c ''ABCDEF''))"

definition hex4 :: "char \<Rightarrow> char \<Rightarrow> char \<Rightarrow> char \<Rightarrow> nat option" where
  "hex4 a b c d =
     (case hex_val a of None \<Rightarrow> None | Some p \<Rightarrow>
      case hex_val b of None \<Rightarrow> None | Some q \<Rightarrow>
      case hex_val c of None \<Rightarrow> None | Some r \<Rightarrow>
      case hex_val d of None \<Rightarrow> None | Some s \<Rightarrow>
        Some (((p * 16 + q) * 16 + r) * 16 + s))"

definition is_control :: "char \<Rightarrow> bool" where
  "is_control c = ((of_char c :: nat) < 32)"

definition escape_char :: "char \<Rightarrow> string" where
  "escape_char c =
     (if c = CHR 0x22 then [CHR 0x5C, CHR 0x22]
      else if c = CHR 0x5C then [CHR 0x5C, CHR 0x5C]
      else if c = CHR 0x08 then [CHR 0x5C, CHR ''b'']
      else if c = CHR 0x09 then [CHR 0x5C, CHR ''t'']
      else if c = CHR 0x0A then [CHR 0x5C, CHR ''n'']
      else if c = CHR 0x0C then [CHR 0x5C, CHR ''f'']
      else if c = CHR 0x0D then [CHR 0x5C, CHR ''r'']
      else if is_control c then
        [CHR 0x5C, CHR ''u'', CHR ''0'', CHR ''0'',
         hex_digit (of_char c div 16), hex_digit (of_char c mod 16)]
      else [c])"

definition quote :: "string \<Rightarrow> string" where
  "quote s = CHR 0x22 # concat (map escape_char s) @ [CHR 0x22]"

fun comma_separated :: "string list \<Rightarrow> string" where
  "comma_separated [] = []"
| "comma_separated [s] = quote s"
| "comma_separated (s # t # ss) = quote s @ CHR '','' # comma_separated (t # ss)"

definition JSON_stringify :: "string list \<Rightarrow> string" where
  "JSON_stringify xs = CHR ''['' # comma_separated xs @ [CHR '']'']"

definition unescape :: "char \<Rightarrow> char option" where
  "unescape e =
     (if e = CHR 0x22 then Some (CHR 0x22)
      else if e = CHR 0x5C then Some (CHR 0x5C)
      else if e = CHR ''/'' then Some (CHR ''/'')
      else if e = CHR ''b'' then Some (CHR 0x08)
      else if e = CHR ''f'' then Some (CHR 0x0C)
      else if e = CHR ''n'' then Some (CHR 0x0A)
      else if e = CHR ''r'' then Some (CHR 0x0D)
      else if e = CHR ''t'' then Some (CHR 0x09)
      else None)"

text \<open>
  \<open>json_string cs\<close> reads a string literal whose opening quote has been consumed:
  the decoded string and the text after the closing quote.
\<close>

fun json_string :: "string \<Rightarrow> (string \<times> string) option" where
  "json_string [] = None"
| "json_string (c # cs) =
     (if c = CHR 0x22 then Some ([], cs)
      else if c = CHR 0x5C then
        (case cs of
           [] \<Rightarrow> None
         | e # es \<Rightarrow>
             if e = CHR ''u'' then
               (case es of
                  h1 # h2 # h3 # h4 # r \<Rightarrow>
                    (case hex4 h1 h2 h3 h4 of
                       None \<Rightarrow> None
                     | Some n \<Rightarrow>
                         if n < 256 then
                           (case json_string r of
                              None \<Rightarrow> None
                            | Some (s, t) \<Rightarrow> Some (char_of n # s, t))
                         else None)
                | _ \<Rightarrow> None)
             else
               (case unescape e of
                  None \<Rightarrow> None
                | Some d \<Rightarrow>
                    (case json_string es of
                       None \<Rightarrow> None
                     | Some (s, t) \<Rightarrow> Some (d # s, t))))
      else if is_control c then None
      else (case json_string cs of
              None \<Rightarrow> None
            | Some (s, t) \<Rightarrow> Some (c # s, t)))"

definition is_ws :: "char \<Rightarrow> bool" where
  "is_ws c = (c = CHR '' '' \<or> c = CHR 0x09 \<or> c = CHR 0x0A \<or> c = CHR 0x0D)"

fun skip_ws :: "string \<Rightarrow> string" where
  "skip_ws [] = []"
| "skip_ws (c # cs) = (if is_ws c then skip_ws cs else c # cs)"

text \<open>
  \<open>json_elements cs\<close> reads what follows an element of the array: a comma and a
  further string literal, repeatedly, up to the closing bracket.
\<close>

function json_elements :: "string \<Rightarrow> (string list \<times> string) option" where
  "json_elements cs =
     (case skip_ws cs of
        [] \<Rightarrow> None
      | c # r \<Rightarrow>
          if c = CHR '']'' then Some ([], r)
          else if c = CHR '','' then
            (case skip_ws r of
               [] \<Rightarrow> None
             | q # r' \<Rightarrow>
                 if q = CHR 0x22 then
                   (case json_string r' of
                      None \<Rightarrow> None
                    | Some (s, t) \<Rightarrow>
                        (case json_elements t of
                           None \<Rightarrow> None
                         | Some (ss, u) \<Rightarrow> Some (s # ss, u)))
                 else None)
          else None)"
  by pat_completeness auto
termination
proof (relation "measure length", goal_cases)
  case 1
  show ?case by simp
next
  case (2 cs c r q r' x s t)
  have shorter: "length t' < length ys" if "json_string ys = Some (s', t')" for ys s' t'
    using that
  proof (induction ys arbitrary: s' t' rule: length_induct)
    case (1 xs)
    have smaller: "length t'' < length xs"
      if "json_string zs = Some (s'', t'')" "length zs < length xs" for zs s'' t''
      using 1(1) that by fastforce
    show ?case
    proof (cases xs)
      case Nil
      with 1(2) show ?thesis by simp
    next
      case (Cons d ds)
      from 1(2) show ?thesis
        unfolding Cons
        by (auto split: if_splits list.splits option.splits dest!: smaller simp: Cons)
    qed
  qed
  have ws: "length (skip_ws ys) \<le> length ys" for ys
    by (induction ys) auto
  have "length t < length r'" using 2 by (auto dest: shorter)
  moreover have "length r' < length r"
    using ws [of r] 2 by simp
  moreover have "length r < length cs"
    using ws [of cs] 2 by simp
  ultimately show ?case by simp
qed

declare json_elements.simps [simp del]

definition JSON_parse :: "string \<Rightarrow> js_error + string list" where
  "JSON_parse text =
     (case skip_ws text of
        [] \<Rightarrow> Inl SyntaxError
      | c # r \<Rightarrow>
          if c = CHR ''['' then
            (case skip_ws r of
               [] \<Rightarrow> Inl SyntaxError
             | q # r' \<Rightarrow>
                 if q = CHR '']'' then
                   (if skip_ws r' = [] then Inr [] else Inl SyntaxError)
                 else if q = CHR 0x22 then
                   (case json_string r' of
                      None \<Rightarrow> Inl SyntaxError
                    | Some (s, t) \<Rightarrow>
                        (case json_elements t of
                           None \<Rightarrow> Inl SyntaxError
                         | Some (ss, u) \<Rightarrow>
                             if skip_ws u = [] then Inr (s # ss) else Inl SyntaxError))
                 else Inl SyntaxError)
          else Inl SyntaxError)"

section \<open>The progress store (islandMain.js and the crystal and diorama entry points)\<close>

text \<open>
  \<open>getVisitedStations\<close>, \<open>markStationVisited\<close> and \<open>updateProgressUI\<close> are written out
  three times in the repository, once per entry point. The three copies of the first two
  are the same; \<open>updateProgressUI\<close> ends with the completion check only in
  islandMain.js. The field \<open>variant\<close> says which entry point is running.

  The window-level state: \<open>localStorage\<close> (a map from keys to strings), the two progress
  widgets (each may be missing from the document), \<open>window.completionShown\<close>, the number
  of \<open>completion-message\<close> elements appended to the document so far,
  whether \<open>window.metisPrairieProgress\<close> has been published, and the last navigation
  target. The bar's width is the percentage as a rational number (the source computes it
  in double precision and appends a percent sign).
\<close>

datatype variant = Island | Crystal | Diorama

record page =
  variant :: variant
  localStorage :: "string \<rightharpoonup> string"
  has_progressBar :: bool
  progressBar_width :: rat
  has_progressCount :: bool
  progressCount_text :: nat
  completionShown :: bool
  completionMessages :: nat
  metisPrairieProgress :: bool
  location_href :: "string option"

definition TOTAL_STATIONS :: nat where
  "TOTAL_STATIONS = 18"

definition progress_key :: string where
  "progress_key = ''metisPrairieProgress''"

definition getVisitedStations :: "'a page_scheme \<Rightarrow> js_error + string list" where
  "getVisitedStations p =
     (case localStorage p progress_key of
        None \<Rightarrow> Inr []
      | Some saved \<Rightarrow> if saved = [] then Inr [] else JSON_parse saved)"

definition showCompletionMessage :: "'a page_scheme \<Rightarrow> 'a page_scheme" where
  "showCompletionMessage p =
     (if completionShown p then p
      else p\<lparr>completionShown := True, completionMessages := completionMessages p + 1\<rparr>)"

definition updateProgressUI :: "'a page_scheme \<Rightarrow> 'a page_scheme outcome" where
  "updateProgressUI p =
     (case getVisitedStations p of
        Inl e \<Rightarrow> Inl (e, p)
      | Inr visited \<Rightarrow>
          let count = length visited;
              percentage = (of_nat count / of_nat TOTAL_STATIONS) * 100;
              p1 = (if has_progressBar p then p\<lparr>progressBar_width := percentage\<rparr> else p);
              p2 = (if has_progressCount p1 then p1\<lparr>progressCount_text := count\<rparr> else p1)
          in if variant p2 = Island \<and> count \<ge> TOTAL_STATIONS
             then Inr (showCompletionMessage p2)
             else Inr p2)"

definition markStationVisited ::
  "string \<Rightarrow> js_value \<Rightarrow> 'a page_scheme \<Rightarrow> 'a page_scheme outcome" where
  "markStationVisited stationType stationId p =
     (let key = stationType @ ''-'' @ ToString stationId in
      case getVisitedStations p of
        Inl e \<Rightarrow> Inl (e, p)
      | Inr visited \<Rightarrow>
          if key \<in> set visited then Inr p
          else updateProgressUI
                 (p\<lparr>localStorage :=
                      (localStorage p)(progress_key \<mapsto> JSON_stringify (visited @ [key]))\<rparr>))"

section \<open>The interaction manager (IslandInteractionManager)\<close>

subsection \<open>Static data\<close>

text \<open>
  \<open>ElderVisits.js\<close> is imported by the manager and is not among the sources: the table
  \<open>elderVisits\<close> is a parameter of every method that reads it. The experience tables are
  built by the constructor from the world's station positions; they are a field of the
  manager. \<open>message\<close> is \<open>null\<close> and \<open>buttonText\<close> is missing in the first fireplace
  entry, and the fireplace entries have no \<open>subtitle\<close>.
\<close>

record math_option =
  opt_text :: string
  opt_correct :: bool

record math_challenge =
  mc_label :: string
  mc_question :: string
  mc_options :: "math_option list"
  mc_success :: string

record elder_visit =
  ev_id :: nat
  ev_name :: string
  ev_location :: string
  ev_greeting :: "string list"
  ev_math :: math_challenge

record experience =
  exp_title :: string
  exp_subtitle :: "string option"
  exp_message :: "string option"
  exp_buttonText :: "string option"
  exp_url :: string

datatype category = Fireplace | Herb | LogPile | Garden | Cart | Fishing | Memorial

definition all_categories :: "category list" where
  "all_categories = [Fireplace, Herb, LogPile, Garden, Cart, Fishing, Memorial]"

text \<open>The station type each popup's action passes to \<open>markVisited\<close>.\<close>

fun station_type :: "category \<Rightarrow> string" where
  "station_type Fireplace = ''fire''"
| "station_type Herb = ''herb''"
| "station_type LogPile = ''logpile''"
| "station_type Garden = ''garden''"
| "station_type Cart = ''cart''"
| "station_type Fishing = ''fishing''"
| "station_type Memorial = ''memorial''"

text \<open>The type tag \<open>setupInteractables\<close> writes into a zone's \<open>userData\<close>.\<close>

fun zone_tag :: "category \<Rightarrow> string" where
  "zone_tag Fireplace = ''fireplace''"
| "zone_tag Herb = ''herb''"
| "zone_tag LogPile = ''logpile''"
| "zone_tag Garden = ''garden''"
| "zone_tag Cart = ''cart''"
| "zone_tag Fishing = ''fishing''"
| "zone_tag Memorial = ''memorial''"

subsection \<open>The manager's state\<close>

text \<open>
  \<open>style.display\<close> of an element is \<open>Unset\<close> until a method assigns it (the style sheet
  then hides the overlays). The handler bound to \<open>continueBtn.onclick\<close> and the closures
  given to \<open>setTimeout\<close> are values of a datatype. Every timer has the same delay of
  500 ms, so the pending callbacks fire in the order they were set: \<open>timers\<close> is a queue.
  The option buttons are elements created by \<open>showMathQuestion\<close>; a closure keeps its
  button after \<open>optionsGrid\<close> has been emptied, so the buttons live in a store
  (\<open>elements\<close>, indexed by creation order) and \<open>optionsGrid\<close> lists the children of the
  grid. \<open>raycasts\<close> counts the calls of \<open>raycaster.intersectObjects\<close>.
\<close>

datatype display = Unset | DNone | Flex | Block

datatype handler = Advance | Close | Complete

datatype callback = ShowSuccess | RemoveWrong nat

record option_btn =
  btn_classes :: "string list"
  btn_text :: string
  btn_correct :: bool

record popup =
  popup_display :: display
  popup_title :: string
  popup_subtitle :: string
  popup_text :: string
  explore_text :: string
  explore_onclick :: "(string \<times> nat \<times> string) option"

record zone =
  zone_type :: string
  zone_id :: nat

record app = page +
  experiences :: "category \<Rightarrow> experience list"
  interactables :: "zone list"
  raycasts :: nat
  currentVisit :: "elder_visit option"
  currentCabinNumber :: js_value
  dialogueStep :: nat
  isDialogueOpen :: bool
  completedVisits :: "nat set"
  controls :: "bool option"
  overlay_display :: display
  speakerName :: string
  speakerLocation :: string
  storyText :: string
  mathSection_display :: display
  mathLabel :: string
  mathQuestion :: string
  optionsGrid :: "nat list"
  elements :: "option_btn list"
  continueBtn_display :: display
  continueBtn_text :: string
  continueBtn_onclick :: "handler option"
  timers :: "callback list"
  popups :: "category \<Rightarrow> popup"

subsection \<open>Construction\<close>

text \<open>
  The arrow and the other glyphs of the button labels are outside ASCII; the arrow is
  written \<open>->\<close> and the multiplication sign of the close buttons is left out.
\<close>

fun createPopupUI :: "category \<Rightarrow> popup" where
  "createPopupUI Fireplace =
     \<lparr>popup_display = Unset, popup_title = ''Experience Station'', popup_subtitle = [],
      popup_text = ''Explore this station to learn more.'', explore_text = ''Explore ->'',
      explore_onclick = None\<rparr>"
| "createPopupUI Herb =
     \<lparr>popup_display = Unset, popup_title = ''Medicine Garden'',
      popup_subtitle = ''Healing Traditions'', popup_text = ''Explore the healing plants.'',
      explore_text = ''Enter ->'', explore_onclick = None\<rparr>"
| "createPopupUI LogPile =
     \<lparr>popup_display = Unset, popup_title = ''Architecture'',
      popup_subtitle = ''Building Traditions'', popup_text = ''Explore architecture.'',
      explore_text = ''Explore ->'', explore_onclick = None\<rparr>"
| "createPopupUI Garden =
     \<lparr>popup_display = Unset, popup_title = ''River Lot'',
      popup_subtitle = ''Farming Traditions'', popup_text = ''Learn about farming.'',
      explore_text = ''Plant ->'', explore_onclick = None\<rparr>"
| "createPopupUI Cart =
     \<lparr>popup_display = Unset, popup_title = ''Red River Cart'',
      popup_subtitle = ''Trade & Travel'', popup_text = ''Explore the cart.'',
      explore_text = ''Explore ->'', explore_onclick = None\<rparr>"
| "createPopupUI Fishing =
     \<lparr>popup_display = Unset, popup_title = ''Fishing Season'',
      popup_subtitle = ''River Traditions'', popup_text = ''Learn fishing traditions.'',
      explore_text = ''Cast ->'', explore_onclick = None\<rparr>"
| "createPopupUI Memorial =
     \<lparr>popup_display = Unset, popup_title = ''Memorial'',
      popup_subtitle = ''Remembering & Resilience'', popup_text = ''A space for reflection.'',
      explore_text = ''Enter ->'', explore_onclick = None\<rparr>"

definition zones_of :: "string \<Rightarrow> nat \<Rightarrow> zone list" where
  "zones_of tag n = map (\<lambda>i. \<lparr>zone_type = tag, zone_id = i\<rparr>) [0..<n]"

text \<open>
  One invisible sphere per station: the cabins first, then the fireplaces, then the six
  single stations, each tagged with its type and its index in its table.
\<close>

definition setupInteractables :: "nat \<Rightarrow> (category \<Rightarrow> experience list) \<Rightarrow> zone list" where
  "setupInteractables cabins exps =
     zones_of ''cabin'' cabins
     @ concat (map (\<lambda>c. zones_of (zone_tag c) (length (exps c))) all_categories)"

text \<open>
  The constructor, on the page it runs in: \<open>cabins\<close> is the number of cabin positions the
  world provides, \<open>exps\<close> the experience tables and \<open>ctl\<close> the camera controls
  (\<open>None\<close> when the world has none, \<open>Some enabled\<close> otherwise). \<open>completedVisits\<close> is
  \<open>new Set()\<close>: nothing of the page's storage is read.
\<close>

definition IslandInteractionManager ::
  "page \<Rightarrow> nat \<Rightarrow> (category \<Rightarrow> experience list) \<Rightarrow> bool option \<Rightarrow> app" where
  "IslandInteractionManager p cabins exps ctl =
     \<lparr>variant = variant p, localStorage = localStorage p,
      has_progressBar = has_progressBar p, progressBar_width = progressBar_width p,
      has_progressCount = has_progressCount p, progressCount_text = progressCount_text p,
      completionShown = completionShown p, completionMessages = completionMessages p,
      metisPrairieProgress = metisPrairieProgress p, location_href = location_href p,
      experiences = exps,
      interactables = setupInteractables cabins exps,
      raycasts = 0,
      currentVisit = None,
      currentCabinNumber = Null,
      dialogueStep = 0,
      isDialogueOpen = False,
      completedVisits = {},
      controls = ctl,
      overlay_display = Unset,
      speakerName = [], speakerLocation = [], storyText = [],
      mathSection_display = DNone,
      mathLabel = [], mathQuestion = [],
      optionsGrid = [], elements = [],
      continueBtn_display = Unset, continueBtn_text = ''Continue ->'',
      continueBtn_onclick = None,
      timers = [],
      popups = createPopupUI\<rparr>"

subsection \<open>Elder visits\<close>

definition welcome_back :: string where
  "welcome_back = ''Welcome back, friend! It's good to see you again.''"

definition set_controls :: "bool \<Rightarrow> app \<Rightarrow> app" where
  "set_controls b m = m\<lparr>controls := map_option (\<lambda>_. b) (controls m)\<rparr>"

definition displayCurrentStep :: "app \<Rightarrow> app outcome" where
  "displayCurrentStep m =
     (case currentVisit m of
        None \<Rightarrow> Inl (TypeError, m)
      | Some v \<Rightarrow>
          if dialogueStep m < length (ev_greeting v)
          then Inr (m\<lparr>storyText := ev_greeting v ! dialogueStep m,
                      continueBtn_text := ''Continue ->''\<rparr>)
          else Inr m)"

definition closeDialogue :: "app \<Rightarrow> app" where
  "closeDialogue m =
     set_controls True (m\<lparr>overlay_display := DNone, isDialogueOpen := False, currentVisit := None\<rparr>)"

definition startVisit :: "elder_visit list \<Rightarrow> nat \<Rightarrow> app \<Rightarrow> app outcome" where
  "startVisit elderVisits visitId m =
     (let m1 = set_controls False
                 (m\<lparr>currentVisit :=
                       (if visitId < length elderVisits then Some (elderVisits ! visitId) else None),
                    currentCabinNumber := Num (visitId + 1),
                    dialogueStep := 0,
                    isDialogueOpen := True\<rparr>)
      in case currentVisit m1 of
           None \<Rightarrow> Inl (TypeError, m1)
         | Some v \<Rightarrow>
             let m2 = m1\<lparr>speakerName := ev_name v, speakerLocation := ev_location v,
                         mathSection_display := DNone, continueBtn_display := Block\<rparr>
             in and_then
                  (if visitId \<in> completedVisits m2
                   then Inr (m2\<lparr>storyText := welcome_back, continueBtn_text := ''Leave ->'',
                               continueBtn_onclick := Some Close\<rparr>)
                   else and_then (displayCurrentStep m2)
                          (\<lambda>m3. Inr (m3\<lparr>continueBtn_onclick := Some Advance\<rparr>)))
                  (\<lambda>m4. Inr (m4\<lparr>overlay_display := Flex\<rparr>)))"

definition createOptionBtn :: "math_option \<Rightarrow> option_btn" where
  "createOptionBtn opt =
     \<lparr>btn_classes = [''option-btn''], btn_text = opt_text opt, btn_correct = opt_correct opt\<rparr>"

definition appendOption :: "app \<Rightarrow> math_option \<Rightarrow> app" where
  "appendOption m opt =
     m\<lparr>elements := elements m @ [createOptionBtn opt],
       optionsGrid := optionsGrid m @ [length (elements m)]\<rparr>"

definition showMathQuestion :: "app \<Rightarrow> app outcome" where
  "showMathQuestion m =
     (let m1 = m\<lparr>storyText := [], mathSection_display := Block\<rparr>
      in case currentVisit m1 of
           None \<Rightarrow> Inl (TypeError, m1)
         | Some v \<Rightarrow>
             let m2 = m1\<lparr>mathLabel := mc_label (ev_math v),
                         mathQuestion := mc_question (ev_math v),
                         continueBtn_display := DNone,
                         optionsGrid := []\<rparr>
             in Inr (foldl appendOption m2 (mc_options (ev_math v))))"

definition advanceDialogue :: "app \<Rightarrow> app outcome" where
  "advanceDialogue m =
     (let m1 = m\<lparr>dialogueStep := dialogueStep m + 1\<rparr>
      in case currentVisit m1 of
           None \<Rightarrow> Inl (TypeError, m1)
         | Some v \<Rightarrow>
             if dialogueStep m1 < length (ev_greeting v) then displayCurrentStep m1
             else if dialogueStep m1 = length (ev_greeting v) then showMathQuestion m1
             else Inr m1)"

definition classList_add :: "string \<Rightarrow> option_btn \<Rightarrow> option_btn" where
  "classList_add token b =
     (if token \<in> set (btn_classes b) then b else b\<lparr>btn_classes := btn_classes b @ [token]\<rparr>)"

definition classList_remove :: "string \<Rightarrow> option_btn \<Rightarrow> option_btn" where
  "classList_remove token b = b\<lparr>btn_classes := removeAll token (btn_classes b)\<rparr>"

definition update_element :: "nat \<Rightarrow> (option_btn \<Rightarrow> option_btn) \<Rightarrow> app \<Rightarrow> app" where
  "update_element btn f m =
     (if btn < length (elements m) then m\<lparr>elements := (elements m)[btn := f (elements m ! btn)]\<rparr>
      else m)"

definition handleAnswer :: "nat \<Rightarrow> bool \<Rightarrow> app \<Rightarrow> app" where
  "handleAnswer btn isCorrect m =
     (if isCorrect
      then (update_element btn (classList_add ''correct'') m)\<lparr>timers := timers m @ [ShowSuccess]\<rparr>
      else (update_element btn (classList_add ''wrong'') m)\<lparr>timers := timers m @ [RemoveWrong btn]\<rparr>)"

definition showSuccess :: "app \<Rightarrow> app outcome" where
  "showSuccess m =
     (let m1 = m\<lparr>mathSection_display := DNone\<rparr>
      in case currentVisit m1 of
           None \<Rightarrow> Inl (TypeError, m1)
         | Some v \<Rightarrow>
             Inr (m1\<lparr>storyText := mc_success (ev_math v),
                     continueBtn_display := Block,
                     continueBtn_text := ''Thank you ->'',
                     continueBtn_onclick := Some Complete\<rparr>))"

definition completeVisit :: "app \<Rightarrow> app outcome" where
  "completeVisit m =
     (case currentVisit m of
        None \<Rightarrow> Inl (TypeError, m)
      | Some v \<Rightarrow>
          let m1 = m\<lparr>completedVisits := insert (ev_id v) (completedVisits m)\<rparr>
          in and_then
               (if metisPrairieProgress m1
                then markStationVisited ''cabin'' (currentCabinNumber m1) m1
                else Inr m1)
               (\<lambda>m2. Inr (closeDialogue m2)))"

text \<open>The callback of a timer, and the firing of the oldest pending timer.\<close>

fun run_callback :: "callback \<Rightarrow> app \<Rightarrow> app outcome" where
  "run_callback ShowSuccess m = showSuccess m"
| "run_callback (RemoveWrong btn) m = Inr (update_element btn (classList_remove ''wrong'') m)"

definition timer_fires :: "app \<Rightarrow> app outcome" where
  "timer_fires m =
     (case timers m of
        [] \<Rightarrow> Inr m
      | cb # rest \<Rightarrow> run_callback cb (m\<lparr>timers := rest\<rparr>))"

subsection \<open>Experience popups\<close>

text \<open>
  The seven pairs \<open>openFireplacePopup\<close>/\<open>closeFireplacePopup\<close>, \<open>openHerbPopup\<close>/\<open>closeHerbPopup\<close>,
  ... are the same code over seven sets of widgets; they are one pair of functions with
  the category as a parameter. Only the fireplace popup falls back to default texts
  (\<open>fire.title || "Experience Station"\<close>) and has no subtitle. An index outside the table
  reads \<open>undefined\<close>, and the first property read on it throws after the controls have
  been disabled.
\<close>

definition or_default :: "string option \<Rightarrow> string \<Rightarrow> string" where
  "or_default v d = (case v of None \<Rightarrow> d | Some s \<Rightarrow> if s = [] then d else s)"

definition dom_string :: "string option \<Rightarrow> string" where
  "dom_string v = (case v of None \<Rightarrow> [] | Some s \<Rightarrow> s)"

definition populate :: "category \<Rightarrow> experience \<Rightarrow> popup \<Rightarrow> popup" where
  "populate c item w =
     (if c = Fireplace
      then w\<lparr>popup_title := or_default (Some (exp_title item)) ''Experience Station'',
             popup_text := or_default (exp_message item) ''Explore this station to learn more.'',
             explore_text := or_default (exp_buttonText item) ''Explore ->''\<rparr>
      else w\<lparr>popup_title := exp_title item,
             popup_subtitle := dom_string (exp_subtitle item),
             popup_text := dom_string (exp_message item),
             explore_text := dom_string (exp_buttonText item)\<rparr>)"

definition openPopup :: "category \<Rightarrow> nat \<Rightarrow> app \<Rightarrow> app outcome" where
  "openPopup c i m =
     (let m1 = set_controls False m
      in if i < length (experiences m1 c)
         then let item = experiences m1 c ! i
              in Inr (m1\<lparr>popups := (popups m1)
                         (c := (populate c item (popups m1 c))
                                 \<lparr>explore_onclick := Some (station_type c, i, exp_url item),
                                  popup_display := Flex\<rparr>)\<rparr>)
         else Inl (TypeError, m1))"

definition closePopup :: "category \<Rightarrow> app \<Rightarrow> app" where
  "closePopup c m =
     set_controls True (m\<lparr>popups := (popups m)(c := (popups m c)\<lparr>popup_display := DNone\<rparr>)\<rparr>)"

abbreviation "openFireplacePopup \<equiv> openPopup Fireplace"
abbreviation "closeFireplacePopup \<equiv> closePopup Fireplace"
abbreviation "openHerbPopup \<equiv> openPopup Herb"
abbreviation "closeHerbPopup \<equiv> closePopup Herb"
abbreviation "openLogPilePopup \<equiv> openPopup LogPile"
abbreviation "closeLogPilePopup \<equiv> closePopup LogPile"
abbreviation "openGardenPopup \<equiv> openPopup Garden"
abbreviation "closeGardenPopup \<equiv> closePopup Garden"
abbreviation "openCartPopup \<equiv> openPopup Cart"
abbreviation "closeCartPopup \<equiv> closePopup Cart"
abbreviation "openFishingPopup \<equiv> openPopup Fishing"
abbreviation "closeFishingPopup \<equiv> closePopup Fishing"
abbreviation "openMemorialPopup \<equiv> openPopup Memorial"
abbreviation "closeMemorialPopup \<equiv> closePopup Memorial"

text \<open>
  The action of a popup: mark the station visited when the progress store is published,
  then navigate. When \<open>markVisited\<close> throws, the navigation does not happen.
\<close>

definition exploreBtn_onclick :: "category \<Rightarrow> app \<Rightarrow> app outcome" where
  "exploreBtn_onclick c m =
     (case explore_onclick (popups m c) of
        None \<Rightarrow> Inr m
      | Some (stationType, i, url) \<Rightarrow>
          and_then
            (if metisPrairieProgress m then markStationVisited stationType (Num i) m else Inr m)
            (\<lambda>m1. Inr (m1\<lparr>location_href := Some url\<rparr>)))"

subsection \<open>Picking\<close>

text \<open>
  The ray cast itself belongs to the graphics library: a click comes with its result,
  the \<open>userData\<close> of the nearest intersected zone or \<open>None\<close> when the ray meets no zone.
  The pointer coordinates are floating-point numbers and are not modelled.
\<close>

definition popup_open :: "app \<Rightarrow> bool" where
  "popup_open m = list_ex (\<lambda>c. popup_display (popups m c) = Flex) all_categories"

definition dispatch :: "elder_visit list \<Rightarrow> zone \<Rightarrow> app \<Rightarrow> app outcome" where
  "dispatch elderVisits userData m =
     (if zone_type userData = ''cabin'' then startVisit elderVisits (zone_id userData) m
      else if zone_type userData = ''fireplace'' then openFireplacePopup (zone_id userData) m
      else if zone_type userData = ''herb'' then openHerbPopup (zone_id userData) m
      else if zone_type userData = ''logpile'' then openLogPilePopup (zone_id userData) m
      else if zone_type userData = ''garden'' then openGardenPopup (zone_id userData) m
      else if zone_type userData = ''cart'' then openCartPopup (zone_id userData) m
      else if zone_type userData = ''fishing'' then openFishingPopup (zone_id userData) m
      else if zone_type userData = ''memorial'' then openMemorialPopup (zone_id userData) m
      else Inr m)"

definition onCanvasClick :: "elder_visit list \<Rightarrow> zone option \<Rightarrow> app \<Rightarrow> app outcome" where
  "onCanvasClick elderVisits hit m =
     (if isDialogueOpen m then Inr m
      else if popup_open m then Inr m
      else let m1 = m\<lparr>raycasts := raycasts m + 1\<rparr>
           in case hit of
                None \<Rightarrow> Inr m1
              | Some userData \<Rightarrow> dispatch elderVisits userData m1)"

subsection \<open>Events\<close>

text \<open>
  What \<open>setupEvents\<close> and the \<open>onclick\<close> bindings wire up. A click on the continue
  button runs the listener added by \<open>setupEvents\<close> (\<open>advanceDialogue\<close>) and then the
  handler bound to \<open>onclick\<close>, in the order of their registration; an exception in one
  listener is reported and does not stop the other. The escape key closes all eight
  overlays. An event leaves the state its handlers have reached, whether they returned or
  threw. Events are not restricted to the widgets that are visible, so a run of \<open>step\<close>
  covers every run of the user interface.
\<close>

datatype event =
    CanvasClick "zone option"
  | ContinueClick
  | CloseClick
  | OverlayClick
  | OptionClick nat
  | TimerFires
  | PopupCloseClick category
  | PopupOverlayClick category
  | ExploreClick category
  | EscapeKey

fun run_handler :: "handler \<Rightarrow> app \<Rightarrow> app outcome" where
  "run_handler Advance m = advanceDialogue m"
| "run_handler Close m = Inr (closeDialogue m)"
| "run_handler Complete m = completeVisit m"

definition continueBtn_click :: "app \<Rightarrow> app" where
  "continueBtn_click m =
     (let m1 = final (advanceDialogue m)
      in case continueBtn_onclick m1 of
           None \<Rightarrow> m1
         | Some h \<Rightarrow> final (run_handler h m1))"

definition option_click :: "nat \<Rightarrow> app \<Rightarrow> app" where
  "option_click i m =
     (if i < length (optionsGrid m)
      then let btn = optionsGrid m ! i
           in if btn < length (elements m)
              then handleAnswer btn (btn_correct (elements m ! btn)) m
              else m
      else m)"

definition escape_key :: "app \<Rightarrow> app" where
  "escape_key m =
     closeMemorialPopup (closeFishingPopup (closeCartPopup (closeGardenPopup
       (closeLogPilePopup (closeHerbPopup (closeFireplacePopup (closeDialogue m)))))))"

fun step :: "elder_visit list \<Rightarrow> app \<Rightarrow> event \<Rightarrow> app" where
  "step elderVisits m (CanvasClick hit) = final (onCanvasClick elderVisits hit m)"
| "step elderVisits m ContinueClick = continueBtn_click m"
| "step elderVisits m CloseClick = closeDialogue m"
| "step elderVisits m OverlayClick = closeDialogue m"
| "step elderVisits m (OptionClick i) = option_click i m"
| "step elderVisits m TimerFires = final (timer_fires m)"
| "step elderVisits m (PopupCloseClick c) = closePopup c m"
| "step elderVisits m (PopupOverlayClick c) = closePopup c m"
| "step elderVisits m (ExploreClick c) = final (exploreBtn_onclick c m)"
| "step elderVisits m EscapeKey = escape_key m"

definition run :: "elder_visit list \<Rightarrow> app \<Rightarrow> event list \<Rightarrow> app" where
  "run elderVisits m es = foldl (step elderVisits) m es"

subsection \<open>Open overlays\<close>

text \<open>
  The number of overlays on display, of the eight (the dialogue overlay and the seven
  popups), and the invariant behind the picking gate: the dialogue overlay is displayed
  only while \<open>isDialogueOpen\<close> is set, no popup is displayed while it is set, and no
  two popups are displayed together.
\<close>


definition open_overlays :: "app \<Rightarrow> nat" where
  "open_overlays m =
     (if overlay_display m = Flex then 1 else 0)
     + length (filter (\<lambda>c. popup_display (popups m c) = Flex) all_categories)"

definition exclusive :: "app \<Rightarrow> bool" where
  "exclusive m \<longleftrightarrow>
     (overlay_display m = Flex \<longrightarrow> isDialogueOpen m)
     \<and> (isDialogueOpen m \<longrightarrow> (\<forall>c. popup_display (popups m c) \<noteq> Flex))
     \<and> (\<forall>c c'. popup_display (popups m c) = Flex \<and> popup_display (popups m c') = Flex \<longrightarrow> c = c')"

subsection \<open>Runs used in the statements\<close>

text \<open>
  Answering wrongly and letting the timer fire: \<open>retry\<close> on a button,
  \<open>wrong_then_wait\<close> on the position of an option in the grid.
\<close>

definition retry :: "app \<Rightarrow> nat \<Rightarrow> app" where
  "retry m btn = final (timer_fires (handleAnswer btn False m))"

definition wrong_then_wait :: "app \<Rightarrow> nat \<Rightarrow> app" where
  "wrong_then_wait m i = final (timer_fires (option_click i m))"

subsection \<open>The visited list as the store leaves it\<close>

text \<open>
  The key \<open>markStationVisited\<close> composes, the list after a call, a sequence of calls, and
  the state of the completion notice once the list reads \<open>xs\<close>.
\<close>

definition key_of :: "string \<Rightarrow> js_value \<Rightarrow> string" where
  "key_of stationType stationId = stationType @ ''-'' @ ToString stationId"

definition add_key :: "string \<Rightarrow> string list \<Rightarrow> string list" where
  "add_key key xs = (if key \<in> set xs then xs else xs @ [key])"

definition marks :: "(string \<times> js_value) list \<Rightarrow> 'a page_scheme \<Rightarrow> 'a page_scheme" where
  "marks calls p = foldl (\<lambda>s call. final (markStationVisited (fst call) (snd call) s)) p calls"

definition add_keys :: "(string \<times> js_value) list \<Rightarrow> string list \<Rightarrow> string list" where
  "add_keys calls xs = foldl (\<lambda>ys call. add_key (key_of (fst call) (snd call)) ys) xs calls"

definition notice_settled :: "'a page_scheme \<Rightarrow> string list \<Rightarrow> bool" where
  "notice_settled p xs \<longleftrightarrow>
     getVisitedStations p = Inr xs
     \<and> completionShown p = (TOTAL_STATIONS \<le> length xs)
     \<and> completionMessages p = (if TOTAL_STATIONS \<le> length xs then 1 else 0)"

subsection \<open>The cabin flow\<close>

text \<open>
  \<open>advance_n k\<close> calls \<open>advanceDialogue\<close> \<open>k\<close> times, \<open>acknowledge\<close> runs the handler
  bound to \<open>continueBtn.onclick\<close>, and \<open>cabin_flow\<close> is the whole visit: start, one
  advance per greeting line, the click on option \<open>j\<close>, the timer, the acknowledgement. An
  exception ends the flow where it is thrown.
\<close>

fun advance_n :: "nat \<Rightarrow> app \<Rightarrow> app outcome" where
  "advance_n 0 m = Inr m"
| "advance_n (Suc k) m = and_then (advanceDialogue m) (advance_n k)"

definition acknowledge :: "app \<Rightarrow> app outcome" where
  "acknowledge m = (case continueBtn_onclick m of None \<Rightarrow> Inr m | Some h \<Rightarrow> run_handler h m)"

definition cabin_flow :: "elder_visit list \<Rightarrow> nat \<Rightarrow> nat \<Rightarrow> app \<Rightarrow> app outcome" where
  "cabin_flow elderVisits visitId j m =
     and_then (startVisit elderVisits visitId m) (\<lambda>m1.
     and_then (advance_n (length (ev_greeting (elderVisits ! visitId))) m1) (\<lambda>m2.
     and_then (Inr (option_click j m2)) (\<lambda>m3.
     and_then (timer_fires m3) acknowledge)))"

section \<open>Sample data\<close>

text \<open>
  A visit in the shape of the entries of \<open>ElderVisits.js\<close>, an experience in the shape
  of the first fireplace entry, and a freshly loaded page: the concrete inputs on which
  the statements below are evaluated.
\<close>

definition demo_visit :: elder_visit where
  "demo_visit =
     \<lparr>ev_id = 0, ev_name = ''Elder Marie'', ev_location = ''Cabin 1'',
      ev_greeting = [''Tansi!'', ''Come and sit by the fire.''],
      ev_math = \<lparr>mc_label = ''Counting'', mc_question = ''2 + 3 = ?'',
                 mc_options = [\<lparr>opt_text = ''4'', opt_correct = False\<rparr>,
                               \<lparr>opt_text = ''5'', opt_correct = True\<rparr>],
                 mc_success = ''Well done.''\<rparr>\<rparr>"

definition demo_experience :: experience where
  "demo_experience =
     \<lparr>exp_title = ''The Infinite Loom'', exp_subtitle = None, exp_message = None,
      exp_buttonText = None, exp_url = ''experiences/infinite-loom.html''\<rparr>"

definition demo_page :: page where
  "demo_page =
     \<lparr>variant = Island, localStorage = Map.empty,
      has_progressBar = True, progressBar_width = 0,
      has_progressCount = True, progressCount_text = 0,
      completionShown = False, completionMessages = 0,
      metisPrairieProgress = True, location_href = None\<rparr>"

definition demo_manager :: app where
  "demo_manager = IslandInteractionManager demo_page 1 (\<lambda>c. [demo_experience]) (Some True)"

text \<open>
  The manager after \<open>startVisit(0)\<close> and two calls of \<open>advanceDialogue\<close> on the sample
  visit: the math question is on display.
\<close>

definition demo_math :: app where
  "demo_math = final (and_then (startVisit [demo_visit] 0 demo_manager)
                  (\<lambda>m. and_then (advanceDialogue m) advanceDialogue))"

text \<open>
  A page whose progress value is not JSON, and pages of each entry point that hold
  seventeen keys.
\<close>

definition corrupt_page :: page where
  "corrupt_page = demo_page\<lparr>localStorage := [progress_key \<mapsto> ''{oops'']\<rparr>"

definition seventeen_keys :: "string list" where
  "seventeen_keys =
     [''cabin-1'', ''cabin-2'', ''cabin-3'', ''cabin-4'', ''cabin-5'', ''cabin-6'',
      ''fire-0'', ''fire-1'', ''fire-2'', ''fire-3'', ''fire-4'', ''fire-5'',
      ''herb-0'', ''logpile-0'', ''garden-0'', ''cart-0'', ''fishing-0'']"

definition almost_done :: "variant \<Rightarrow> page" where
  "almost_done v =
     demo_page\<lparr>variant := v,
               localStorage := [progress_key \<mapsto> JSON_stringify seventeen_keys]\<rparr>"

text \<open>
  The sample visit just started, with a progress value that has become unreadable since
  the page was loaded.
\<close>

definition stranded :: app where
  "stranded = (final (startVisit [demo_visit] 0 demo_manager))
                \<lparr>localStorage := [progress_key \<mapsto> ''{oops'']\<rparr>"

section \<open>Basic facts about the methods\<close>


lemma final_simps [simp]:
  "final (Inr s) = s" "final (Inl (e, s)) = s"
  by (simp_all add: final_def)

lemma and_then_Inr [simp]: "and_then (Inr s) f = f s"
  by (simp add: and_then_def)

lemma and_then_Inl [simp]: "and_then (Inl x) f = Inl x"
  by (simp add: and_then_def)

lemma threw_simps [simp]:
  "threw (Inr s) = None" "threw (Inl (e, s)) = Some e"
  by (simp_all add: threw_def)

lemma foldl_appendOption:
  "foldl appendOption m opts =
     m\<lparr>elements := elements m @ map createOptionBtn opts,
       optionsGrid := optionsGrid m @ [length (elements m) ..< length (elements m) + length opts]\<rparr>"
proof (induction opts rule: rev_induct)
  case Nil
  show ?case by simp
next
  case (snoc opt opts)
  have "foldl appendOption m (opts @ [opt]) = appendOption (foldl appendOption m opts) opt"
    by simp
  also have "\<dots> = appendOption
      (m\<lparr>elements := elements m @ map createOptionBtn opts,
         optionsGrid := optionsGrid m @ [length (elements m) ..< length (elements m) + length opts]\<rparr>) opt"
    by (simp only: snoc.IH)
  also have "\<dots> = m\<lparr>elements := elements m @ map createOptionBtn (opts @ [opt]),
       optionsGrid := optionsGrid m @
         [length (elements m) ..< length (elements m) + length (opts @ [opt])]\<rparr>"
    by (simp add: appendOption_def)
  finally show ?case .
qed

lemma showMathQuestion_Some:
  assumes "currentVisit m = Some v"
  shows "showMathQuestion m =
     Inr (m\<lparr>storyText := [], mathSection_display := Block,
            mathLabel := mc_label (ev_math v), mathQuestion := mc_question (ev_math v),
            continueBtn_display := DNone,
            optionsGrid := [length (elements m) ..< length (elements m) + length (mc_options (ev_math v))],
            elements := elements m @ map createOptionBtn (mc_options (ev_math v))\<rparr>)"
  using assms by (simp add: showMathQuestion_def foldl_appendOption Let_def)

lemma advanceDialogue_Some:
  assumes "currentVisit m = Some v"
  shows "advanceDialogue m =
     (if dialogueStep m + 1 < length (ev_greeting v)
      then Inr (m\<lparr>dialogueStep := dialogueStep m + 1,
                  storyText := ev_greeting v ! (dialogueStep m + 1),
                  continueBtn_text := ''Continue ->''\<rparr>)
      else if dialogueStep m + 1 = length (ev_greeting v)
      then showMathQuestion (m\<lparr>dialogueStep := dialogueStep m + 1\<rparr>)
      else Inr (m\<lparr>dialogueStep := dialogueStep m + 1\<rparr>))"
  using assms by (simp add: advanceDialogue_def displayCurrentStep_def Let_def)

lemma leave_click_closes:
  assumes "currentVisit m = Some v" "continueBtn_onclick m = Some Close"
  shows "overlay_display (continueBtn_click m) = DNone"
    and "\<not> isDialogueOpen (continueBtn_click m)"
    and "currentVisit (continueBtn_click m) = None"
    and "controls (continueBtn_click m) = map_option (\<lambda>_. True) (controls m)"
    and "completedVisits (continueBtn_click m) = completedVisits m"
    and "localStorage (continueBtn_click m) = localStorage m"
  using assms
  by (simp_all add: continueBtn_click_def advanceDialogue_Some showMathQuestion_Some final_def
        Let_def closeDialogue_def set_controls_def)

section \<open>JSON texts written by the store are read back\<close>


lemma hex_val_hex_digit:
  assumes "d < 16"
  shows "hex_val (hex_digit d) = Some d"
proof -
  have "\<forall>k \<in> set [0, 1, 2, 3, 4, 5, 6, 7, 8, 9, 10, 11, 12, 13, 14, 15].
          hex_val (hex_digit k) = Some k"
    by (simp add: hex_val_def hex_digit_def)
  moreover have "d \<in> set [0, 1, 2, 3, 4, 5, 6, 7, 8, 9, 10, 11, 12, 13, 14, 15]"
    using assms by simp presburger
  ultimately show ?thesis by blast
qed

lemma hex4_control:
  assumes "is_control c"
  shows "hex4 (CHR ''0'') (CHR ''0'') (hex_digit (of_char c div 16)) (hex_digit (of_char c mod 16))
           = Some (of_char c)"
proof -
  have n: "(of_char c :: nat) < 32" using assms by (simp add: is_control_def)
  then have "(of_char c :: nat) div 16 < 16" by simp
  moreover have "(of_char c :: nat) mod 16 < 16" by simp
  moreover have "hex_val (CHR ''0'') = Some 0" by (simp add: hex_val_def)
  ultimately show ?thesis
    by (simp add: hex4_def hex_val_hex_digit)
qed

lemma json_string_escape:
  assumes "json_string rest = Some (s, t)"
  shows "json_string (escape_char c @ rest) = Some (c # s, t)"
proof (cases "is_control c")
  case True
  have n: "(of_char c :: nat) < 256" using True by (simp add: is_control_def)
  show ?thesis
    using assms True hex4_control [OF True] n
    by (simp add: escape_char_def unescape_def)
next
  case False
  then show ?thesis
    using assms by (simp add: escape_char_def unescape_def is_control_def)
qed

lemma json_string_quote:
  "json_string (concat (map escape_char s) @ CHR 0x22 # r) = Some (s, r)"
  by (induction s) (simp_all add: json_string_escape)

lemma skip_ws_token [simp]:
  "\<not> is_ws c \<Longrightarrow> skip_ws (c # cs) = c # cs"
  by simp

lemma json_elements_roundtrip:
  "json_elements (concat (map (\<lambda>s. CHR '','' # quote s) ss) @ CHR '']'' # r) = Some (ss, r)"
proof (induction ss)
  case Nil
  show ?case by (simp add: json_elements.simps is_ws_def)
next
  case (Cons s ss)
  show ?case
    using Cons.IH
    by (subst json_elements.simps) (simp add: quote_def is_ws_def json_string_quote)
qed

lemma comma_separated_Cons:
  "comma_separated (s # ss) = quote s @ concat (map (\<lambda>t. CHR '','' # quote t) ss)"
  by (induction ss arbitrary: s) simp_all

lemma JSON_roundtrip: "JSON_parse (JSON_stringify xs) = Inr xs"
proof (cases xs)
  case Nil
  then show ?thesis by (simp add: JSON_parse_def JSON_stringify_def is_ws_def)
next
  case (Cons s ss)
  have "json_elements (concat (map (\<lambda>s. CHR '','' # quote s) ss) @ [CHR '']'']) = Some (ss, [])"
    using json_elements_roundtrip [of ss "[]"] by simp
  then show ?thesis
    using Cons
    by (simp add: JSON_parse_def JSON_stringify_def comma_separated_Cons quote_def is_ws_def
          json_string_quote)
qed

lemma JSON_stringify_nonempty: "JSON_stringify xs \<noteq> []"
  by (simp add: JSON_stringify_def)

section \<open>The progress store\<close>

lemma getVisited_written [simp]:
  "getVisitedStations (p\<lparr>localStorage := (localStorage p)(progress_key \<mapsto> JSON_stringify ys)\<rparr>)
     = Inr ys"
  by (simp add: getVisitedStations_def JSON_roundtrip JSON_stringify_nonempty)

lemma getVisited_absent:
  "localStorage p progress_key = None \<or> localStorage p progress_key = Some []
     \<Longrightarrow> getVisitedStations p = Inr []"
  by (auto simp: getVisitedStations_def)

lemma getVisited_showCompletion [simp]:
  "getVisitedStations (showCompletionMessage p) = getVisitedStations p"
  by (simp add: showCompletionMessage_def getVisitedStations_def)

lemma updateProgressUI_reads:
  assumes "getVisitedStations p = Inr ys"
  shows "threw (updateProgressUI p) = None"
    and "getVisitedStations (final (updateProgressUI p)) = Inr ys"
    and "localStorage (final (updateProgressUI p)) = localStorage p"
    and "variant (final (updateProgressUI p)) = variant p"
    and "page.more (final (updateProgressUI p)) = page.more p"
  using assms
  by (simp_all add: updateProgressUI_def Let_def showCompletionMessage_def getVisitedStations_def)

lemma mark_reads:
  assumes "getVisitedStations p = Inr xs"
  shows "threw (markStationVisited c n p) = None"
    and "getVisitedStations (final (markStationVisited c n p)) = Inr (add_key (key_of c n) xs)"
    and "variant (final (markStationVisited c n p)) = variant p"
    and "page.more (final (markStationVisited c n p)) = page.more p"
    and "key_of c n \<in> set xs \<Longrightarrow> markStationVisited c n p = Inr p"
proof -
  let ?q = "p\<lparr>localStorage := (localStorage p)(progress_key \<mapsto> JSON_stringify (xs @ [key_of c n]))\<rparr>"
  have q: "getVisitedStations ?q = Inr (xs @ [key_of c n])" by simp
  note u = updateProgressUI_reads [OF q]
  have m: "markStationVisited c n p = (if key_of c n \<in> set xs then Inr p else updateProgressUI ?q)"
    using assms by (simp add: markStationVisited_def key_of_def Let_def)
  show "threw (markStationVisited c n p) = None" using u(1) by (simp add: m)
  show "getVisitedStations (final (markStationVisited c n p)) = Inr (add_key (key_of c n) xs)"
    using u(2) assms by (simp add: m add_key_def)
  show "variant (final (markStationVisited c n p)) = variant p" using u(4) by (simp add: m)
  show "page.more (final (markStationVisited c n p)) = page.more p" using u(5) by (simp add: m)
  show "key_of c n \<in> set xs \<Longrightarrow> markStationVisited c n p = Inr p" by (simp add: m)
qed

lemma count_list_distinct:
  "distinct xs \<Longrightarrow> x \<in> set xs \<Longrightarrow> count_list xs x = 1"
  by (induction xs) auto

text \<open>
  Claim C5. Let the visited list read from the storage be \<open>xs\<close>, without duplicates.
  \<open>markStationVisited c n\<close> returns normally; afterwards the list read back is \<open>xs\<close>
  with the key \<open>c-n\<close> appended when it was missing, so it has no duplicates and holds
  the key exactly once. A second call with the same arguments returns the state of the
  first call unchanged: the same storage, the same bar width and counter, and no further
  completion notice.
\<close>

theorem C5_markVisited_idempotent:
  assumes "getVisitedStations p = Inr xs" and "distinct xs"
  shows "threw (markStationVisited c n p) = None
       \<and> getVisitedStations (final (markStationVisited c n p)) = Inr (add_key (key_of c n) xs)
       \<and> count_list (add_key (key_of c n) xs) (key_of c n) = 1
       \<and> distinct (add_key (key_of c n) xs)
       \<and> markStationVisited c n (final (markStationVisited c n p))
           = Inr (final (markStationVisited c n p))"
proof -
  note m = mark_reads [OF assms(1), of c n]
  have k: "key_of c n \<in> set (add_key (key_of c n) xs)" by (simp add: add_key_def)
  have d: "distinct (add_key (key_of c n) xs)" using assms(2) by (simp add: add_key_def)
  have "count_list (add_key (key_of c n) xs) (key_of c n) = 1"
    using d k by (rule count_list_distinct)
  moreover have "markStationVisited c n (final (markStationVisited c n p))
           = Inr (final (markStationVisited c n p))"
    using mark_reads(5) [OF m(2) k] .
  ultimately show ?thesis using m(1) m(2) d by blast
qed

theorem C5_markVisited_idempotent_witness:
  "getVisitedStations demo_page = Inr [] \<and> distinct ([] :: string list)
   \<and> getVisitedStations (final (markStationVisited ''fire'' (Num 2) demo_page)) = Inr [''fire-2'']
   \<and> markStationVisited ''fire'' (Num 2) (final (markStationVisited ''fire'' (Num 2) demo_page))
       = Inr (final (markStationVisited ''fire'' (Num 2) demo_page))"
proof -
  have h1: "getVisitedStations demo_page = Inr []"
    by (simp add: getVisitedStations_def demo_page_def)
  have h2: "distinct ([] :: string list)" by simp
  note inst = C5_markVisited_idempotent [OF h1 h2, of "''fire''" "Num 2"]
  have "add_key (key_of ''fire'' (Num 2)) [] = [''fire-2'']"
    by (simp add: add_key_def key_of_def show_nat.simps digit_char_def)
  then show ?thesis using h1 h2 inst by simp
qed

text \<open>
  Claim C2. With a text under the progress key that is not JSON, \<open>JSON.parse\<close> throws
  and nothing catches it: \<open>getVisitedStations\<close>, \<open>markStationVisited\<close> and
  \<open>updateProgressUI\<close> all end in \<open>SyntaxError\<close>, and no key is recorded. The lemma after
  it is the half of the claim the code keeps: with no value, or the empty string, under
  the key the list reads as empty and \<open>markStationVisited\<close> records the key.
\<close>

theorem C2_corrupt_storage_throws:
  "getVisitedStations corrupt_page = Inl SyntaxError
   \<and> markStationVisited ''fire'' (Num 2) corrupt_page = Inl (SyntaxError, corrupt_page)
   \<and> updateProgressUI corrupt_page = Inl (SyntaxError, corrupt_page)"
proof -
  have "getVisitedStations corrupt_page = Inl SyntaxError"
    by (simp add: corrupt_page_def getVisitedStations_def JSON_parse_def is_ws_def)
  then show ?thesis
    by (simp add: markStationVisited_def updateProgressUI_def Let_def)
qed

lemma absent_storage_reads_empty:
  assumes "localStorage p progress_key = None \<or> localStorage p progress_key = Some []"
  shows "getVisitedStations p = Inr []"
    and "threw (markStationVisited c n p) = None"
    and "getVisitedStations (final (markStationVisited c n p)) = Inr [key_of c n]"
proof -
  show r: "getVisitedStations p = Inr []" using assms by (rule getVisited_absent)
  show "threw (markStationVisited c n p) = None" using mark_reads(1) [OF r] .
  show "getVisitedStations (final (markStationVisited c n p)) = Inr [key_of c n]"
    using mark_reads(2) [OF r, of c n] by (simp add: add_key_def)
qed

text \<open>
  In islandMain.js the notice is shown once, when the list first has 18 entries or more,
  whether that happens on load or on a later call; after that no call shows it again.
\<close>

lemma island_update:
  assumes "variant p = Island" and "getVisitedStations p = Inr xs"
    and "completionShown p = (TOTAL_STATIONS \<le> length ys)"
    and "completionMessages p = (if TOTAL_STATIONS \<le> length ys then 1 else 0)"
    and "length ys \<le> length xs"
  shows "notice_settled (final (updateProgressUI p)) xs"
  using assms
  by (auto simp add: notice_settled_def updateProgressUI_def Let_def showCompletionMessage_def
        getVisitedStations_def)

lemma island_mark:
  assumes "variant p = Island" and "notice_settled p xs"
  shows "notice_settled (final (markStationVisited c n p)) (add_key (key_of c n) xs)"
proof (cases "key_of c n \<in> set xs")
  case True
  then show ?thesis
    using assms mark_reads(5) [of p xs c n] by (simp add: notice_settled_def add_key_def)
next
  case False
  let ?q = "p\<lparr>localStorage := (localStorage p)(progress_key \<mapsto> JSON_stringify (xs @ [key_of c n]))\<rparr>"
  have m: "markStationVisited c n p = updateProgressUI ?q"
    using assms(2) False by (simp add: markStationVisited_def key_of_def Let_def notice_settled_def)
  have "notice_settled (final (updateProgressUI ?q)) (xs @ [key_of c n])"
    by (rule island_update [where ys = xs]) (use assms in \<open>simp_all add: notice_settled_def\<close>)
  then show ?thesis using False by (simp add: m add_key_def)
qed

lemma island_marks:
  assumes "variant p = Island" and "notice_settled p xs"
  shows "notice_settled (marks calls p) (add_keys calls xs) \<and> variant (marks calls p) = Island"
  using assms
proof (induction calls arbitrary: p xs)
  case Nil
  then show ?case by (simp add: marks_def add_keys_def)
next
  case (Cons call calls)
  let ?p1 = "final (markStationVisited (fst call) (snd call) p)"
  have s: "notice_settled ?p1 (add_key (key_of (fst call) (snd call)) xs)"
    using island_mark [OF Cons.prems] .
  have r: "getVisitedStations p = Inr xs" using Cons.prems(2) by (simp add: notice_settled_def)
  have v: "variant ?p1 = Island" using mark_reads(3) [OF r] Cons.prems(1) by simp
  show ?case using Cons.IH [OF v s] by (simp add: marks_def add_keys_def)
qed

lemma island_completion_once:
  assumes "variant p = Island" and "getVisitedStations p = Inr xs"
    and "\<not> completionShown p" and "completionMessages p = 0"
  shows "completionMessages (marks calls (final (updateProgressUI p)))
           = (if TOTAL_STATIONS \<le> length (add_keys calls xs) then 1 else 0)"
proof -
  have s: "notice_settled (final (updateProgressUI p)) xs"
    by (rule island_update [where ys = "[]"]) (use assms in \<open>simp_all add: TOTAL_STATIONS_def\<close>)
  have v: "variant (final (updateProgressUI p)) = Island"
    using updateProgressUI_reads(4) [OF assms(2)] assms(1) by simp
  show ?thesis using island_marks [OF v s, of calls] by (simp add: notice_settled_def)
qed

lemma no_notice_elsewhere:
  assumes "variant p \<noteq> Island"
  shows "completionMessages (final (markStationVisited c n p)) = completionMessages p"
    and "variant (final (markStationVisited c n p)) = variant p"
    and "completionMessages (final (updateProgressUI p)) = completionMessages p"
  using assms
  by (simp_all add: markStationVisited_def updateProgressUI_def Let_def split: sum.splits)

lemma no_notice_elsewhere_marks:
  assumes "variant p \<noteq> Island"
  shows "completionMessages (marks calls p) = completionMessages p"
  using assms
proof (induction calls arbitrary: p)
  case Nil
  show ?case by (simp add: marks_def)
next
  case (Cons call calls)
  let ?p1 = "final (markStationVisited (fst call) (snd call) p)"
  have "variant ?p1 \<noteq> Island" using no_notice_elsewhere(2) [OF Cons.prems] Cons.prems by simp
  then have "completionMessages (marks calls ?p1) = completionMessages ?p1" by (rule Cons.IH)
  then show ?case using no_notice_elsewhere(1) [OF Cons.prems] by (simp add: marks_def)
qed

text \<open>
  Claim C3. Seventeen keys are stored and the eighteenth is marked. In the crystal and
  diorama entry points the list then holds 18 distinct keys and no completion notice has
  been shown: their \<open>updateProgressUI\<close> ends after publishing the count. In islandMain.js
  the same call shows the notice.
\<close>

theorem C3_no_notice_in_crystal:
  "getVisitedStations (final (markStationVisited ''memorial'' (Num 0) (almost_done Crystal)))
     = Inr (seventeen_keys @ [''memorial-0''])
   \<and> length (seventeen_keys @ [''memorial-0'']) = TOTAL_STATIONS
   \<and> distinct (seventeen_keys @ [''memorial-0''])
   \<and> completionMessages (final (markStationVisited ''memorial'' (Num 0) (almost_done Crystal))) = 0
   \<and> completionMessages (final (markStationVisited ''memorial'' (Num 0) (almost_done Diorama))) = 0
   \<and> completionMessages (final (markStationVisited ''memorial'' (Num 0) (almost_done Island))) = 1"
proof -
  have r: "getVisitedStations (almost_done v) = Inr seventeen_keys" for v
    by (simp add: almost_done_def getVisitedStations_def JSON_roundtrip JSON_stringify_nonempty)
  have k: "add_key (key_of ''memorial'' (Num 0)) seventeen_keys = seventeen_keys @ [''memorial-0'']"
    by (simp add: add_key_def key_of_def show_nat.simps digit_char_def seventeen_keys_def)
  have g: "getVisitedStations (final (markStationVisited ''memorial'' (Num 0) (almost_done Crystal)))
     = Inr (seventeen_keys @ [''memorial-0''])"
    using mark_reads(2) [OF r, of "''memorial''" "Num 0" Crystal] by (simp add: k)
  have l: "length (seventeen_keys @ [''memorial-0'']) = TOTAL_STATIONS"
    and d: "distinct (seventeen_keys @ [''memorial-0''])"
    by (simp_all add: seventeen_keys_def TOTAL_STATIONS_def)
  have c: "completionMessages (final (markStationVisited ''memorial'' (Num 0) (almost_done Crystal))) = 0"
    using no_notice_elsewhere(1) [of "almost_done Crystal" "''memorial''" "Num 0"]
    by (simp add: almost_done_def demo_page_def)
  have di: "completionMessages (final (markStationVisited ''memorial'' (Num 0) (almost_done Diorama))) = 0"
    using no_notice_elsewhere(1) [of "almost_done Diorama" "''memorial''" "Num 0"]
    by (simp add: almost_done_def demo_page_def)
  have s: "notice_settled (almost_done Island) seventeen_keys"
    using r [of Island]
    by (simp add: notice_settled_def almost_done_def demo_page_def TOTAL_STATIONS_def
          seventeen_keys_def)
  have "notice_settled (final (markStationVisited ''memorial'' (Num 0) (almost_done Island)))
          (add_key (key_of ''memorial'' (Num 0)) seventeen_keys)"
    by (rule island_mark [OF _ s]) (simp add: almost_done_def)
  then have i: "completionMessages (final (markStationVisited ''memorial'' (Num 0) (almost_done Island))) = 1"
    using l by (simp add: notice_settled_def k)
  show ?thesis using g l d c di i by blast
qed

text \<open>
  Each world provides five cabin positions, and the constructor's tables hold six
  fireplaces and one entry for each of the other six categories: the manager registers
  seventeen zones, one less than \<open>TOTAL_STATIONS\<close>.
\<close>

lemma seventeen_stations:
  assumes "length (exps Fireplace) = 6" and "length (exps Herb) = 1"
    and "length (exps LogPile) = 1" and "length (exps Garden) = 1"
    and "length (exps Cart) = 1" and "length (exps Fishing) = 1"
    and "length (exps Memorial) = 1"
  shows "length (interactables (IslandInteractionManager p 5 exps ctl)) = 17"
    and "length (interactables (IslandInteractionManager p 5 exps ctl)) < TOTAL_STATIONS"
  using assms
  by (simp_all add: IslandInteractionManager_def setupInteractables_def zones_of_def
        all_categories_def TOTAL_STATIONS_def)

section \<open>The already-completed shortcut\<close>

text \<open>
  Claim C7. When \<open>visitId\<close> indexes the table and is in \<open>completedVisits\<close>,
  \<open>startVisit\<close> returns normally with exactly the state written out below: the story text
  is the fixed welcome-back line, the math section is hidden, no option button is
  created, the step counter is 0 and no greeting line or math field of the visit is
  written to any widget; the continue button is labelled \<open>Leave\<close> and bound to
  \<open>closeDialogue\<close>. A click on that button hides the overlay, clears the session
  (\<open>isDialogueOpen\<close>, \<open>currentVisit\<close>), re-enables the controls and leaves the completed
  set and the storage as they were.
\<close>

theorem C7_already_completed_shortcut:
  assumes "visitId < length elderVisits" and "visitId \<in> completedVisits m"
  shows "startVisit elderVisits visitId m =
           Inr (m\<lparr>currentVisit := Some (elderVisits ! visitId),
                  currentCabinNumber := Num (visitId + 1),
                  dialogueStep := 0,
                  isDialogueOpen := True,
                  controls := map_option (\<lambda>_. False) (controls m),
                  speakerName := ev_name (elderVisits ! visitId),
                  speakerLocation := ev_location (elderVisits ! visitId),
                  mathSection_display := DNone,
                  continueBtn_display := Block,
                  storyText := welcome_back,
                  continueBtn_text := ''Leave ->'',
                  continueBtn_onclick := Some Close,
                  overlay_display := Flex\<rparr>)
       \<and> overlay_display (step elderVisits (final (startVisit elderVisits visitId m)) ContinueClick) = DNone
       \<and> \<not> isDialogueOpen (step elderVisits (final (startVisit elderVisits visitId m)) ContinueClick)
       \<and> currentVisit (step elderVisits (final (startVisit elderVisits visitId m)) ContinueClick) = None
       \<and> controls (step elderVisits (final (startVisit elderVisits visitId m)) ContinueClick)
           = map_option (\<lambda>_. True) (controls m)
       \<and> completedVisits (step elderVisits (final (startVisit elderVisits visitId m)) ContinueClick)
           = completedVisits m
       \<and> localStorage (step elderVisits (final (startVisit elderVisits visitId m)) ContinueClick)
           = localStorage m"
proof -
  let ?m' = "m\<lparr>currentVisit := Some (elderVisits ! visitId),
                currentCabinNumber := Num (visitId + 1),
                dialogueStep := 0,
                isDialogueOpen := True,
                controls := map_option (\<lambda>_. False) (controls m),
                speakerName := ev_name (elderVisits ! visitId),
                speakerLocation := ev_location (elderVisits ! visitId),
                mathSection_display := DNone,
                continueBtn_display := Block,
                storyText := welcome_back,
                continueBtn_text := ''Leave ->'',
                continueBtn_onclick := Some Close,
                overlay_display := Flex\<rparr>"
  have start: "startVisit elderVisits visitId m = Inr ?m'"
    using assms by (simp add: startVisit_def set_controls_def and_then_def Let_def)
  have fin: "final (startVisit elderVisits visitId m) = ?m'"
    by (simp add: start final_def)
  have cv: "currentVisit ?m' = Some (elderVisits ! visitId)"
    and oc: "continueBtn_onclick ?m' = Some Close"
    by simp_all
  note closes = leave_click_closes [OF cv oc]
  have ctl: "controls (continueBtn_click ?m') = map_option (\<lambda>_. True) (controls m)"
    using closes(4) by (simp add: option.map_comp comp_def)
  have cmp: "completedVisits (continueBtn_click ?m') = completedVisits m"
    using closes(5) by simp
  have sto: "localStorage (continueBtn_click ?m') = localStorage m"
    using closes(6) by simp
  show ?thesis
    unfolding fin step.simps
    using start closes(1) closes(2) closes(3) ctl cmp sto by blast
qed

theorem C7_already_completed_shortcut_witness:
  "(0::nat) < length [demo_visit]
   \<and> 0 \<in> completedVisits (demo_manager\<lparr>completedVisits := {0}\<rparr>)
   \<and> storyText (final (startVisit [demo_visit] 0 (demo_manager\<lparr>completedVisits := {0}\<rparr>)))
       = welcome_back
   \<and> continueBtn_onclick (final (startVisit [demo_visit] 0 (demo_manager\<lparr>completedVisits := {0}\<rparr>)))
       = Some Close
   \<and> overlay_display (step [demo_visit]
         (final (startVisit [demo_visit] 0 (demo_manager\<lparr>completedVisits := {0}\<rparr>))) ContinueClick)
       = DNone"
proof -
  have h1: "(0::nat) < length [demo_visit]" by simp
  have h2: "0 \<in> completedVisits (demo_manager\<lparr>completedVisits := {0}\<rparr>)" by simp
  note inst = C7_already_completed_shortcut [OF h1 h2]
  have "storyText (final (startVisit [demo_visit] 0 (demo_manager\<lparr>completedVisits := {0}\<rparr>)))
          = welcome_back"
    and "continueBtn_onclick (final (startVisit [demo_visit] 0 (demo_manager\<lparr>completedVisits := {0}\<rparr>)))
          = Some Close"
    using inst by (simp_all add: final_def)
  then show ?thesis using h1 h2 inst by blast
qed

section \<open>The completed set\<close>

lemma fresh_start:
  assumes "visitId < length elderVisits"
  shows "startVisit elderVisits visitId (IslandInteractionManager p cabins exps ctl) =
     Inr ((IslandInteractionManager p cabins exps ctl)
            \<lparr>currentVisit := Some (elderVisits ! visitId),
             currentCabinNumber := Num (visitId + 1),
             dialogueStep := 0,
             isDialogueOpen := True,
             controls := map_option (\<lambda>_. False) ctl,
             speakerName := ev_name (elderVisits ! visitId),
             speakerLocation := ev_location (elderVisits ! visitId),
             mathSection_display := DNone,
             continueBtn_display := Block,
             storyText := (if ev_greeting (elderVisits ! visitId) = [] then []
                           else ev_greeting (elderVisits ! visitId) ! 0),
             continueBtn_text := ''Continue ->'',
             continueBtn_onclick := Some Advance,
             overlay_display := Flex\<rparr>)"
  using assms
  by (simp add: startVisit_def IslandInteractionManager_def set_controls_def and_then_def
        displayCurrentStep_def Let_def)

lemma welcome_iff:
  assumes "visitId < length elderVisits"
  shows "continueBtn_onclick (final (startVisit elderVisits visitId m)) = Some Close
           \<longleftrightarrow> visitId \<in> completedVisits m"
  using assms
  by (simp add: startVisit_def set_controls_def and_then_def displayCurrentStep_def final_def
        Let_def)

lemma mark_completed:
  fixes m :: app
  shows "completedVisits (final (markStationVisited k i m)) = completedVisits m"
  by (simp add: markStationVisited_def updateProgressUI_def showCompletionMessage_def
        final_def Let_def split: sum.splits)

lemma advance_completed:
  "completedVisits (final (advanceDialogue m)) = completedVisits m"
  "continueBtn_onclick (final (advanceDialogue m)) = continueBtn_onclick m"
  "currentVisit (final (advanceDialogue m)) = currentVisit m"
  by (simp_all add: advanceDialogue_def displayCurrentStep_def showMathQuestion_def
        foldl_appendOption final_def Let_def split: option.splits)

lemma completeVisit_completed:
  "completedVisits (final (completeVisit m)) =
     (case currentVisit m of None \<Rightarrow> completedVisits m
      | Some v \<Rightarrow> insert (ev_id v) (completedVisits m))"
proof (cases "currentVisit m")
  case None
  then show ?thesis by (simp add: completeVisit_def final_def)
next
  case (Some v)
  let ?m1 = "m\<lparr>completedVisits := insert (ev_id v) (completedVisits m)\<rparr>"
  show ?thesis
  proof (cases "metisPrairieProgress m")
    case False
    then show ?thesis using Some
      by (simp add: completeVisit_def final_def and_then_def closeDialogue_def set_controls_def Let_def)
  next
    case True
    have "completedVisits (final (markStationVisited ''cabin'' (currentCabinNumber m) ?m1))
            = insert (ev_id v) (completedVisits m)"
      by (simp add: mark_completed)
    then show ?thesis using Some True
      by (cases "markStationVisited ''cabin'' (currentCabinNumber m) ?m1")
         (simp_all add: completeVisit_def final_def and_then_def closeDialogue_def
            set_controls_def Let_def)
  qed
qed

lemma explore_frame:
  assumes "\<And>k i. f (final (markStationVisited k i m)) = f m"
    and "\<And>s url. f (s\<lparr>location_href := url\<rparr>) = f s"
  shows "f (final (exploreBtn_onclick c m)) = f m"
proof (cases "explore_onclick (popups m c)")
  case None
  then show ?thesis by (simp add: exploreBtn_onclick_def)
next
  case (Some a)
  obtain k i url where a: "a = (k, i, url)" by (cases a)
  show ?thesis
  proof (cases "metisPrairieProgress m")
    case False
    then show ?thesis using Some a assms(2)
      by (simp add: exploreBtn_onclick_def and_then_def)
  next
    case True
    show ?thesis
    proof (cases "markStationVisited k (Num i) m")
      case (Inl x)
      then show ?thesis using Some a True assms(1) [of k "Num i"]
        by (cases x) (simp add: exploreBtn_onclick_def and_then_def)
    next
      case (Inr m2)
      then show ?thesis using Some a True assms(1) [of k "Num i"] assms(2)
        by (simp add: exploreBtn_onclick_def and_then_def)
    qed
  qed
qed

lemma step_completed:
  "completedVisits (step elderVisits m e) =
     (case (e, continueBtn_onclick m, currentVisit m) of
        (ContinueClick, Some Complete, Some v) \<Rightarrow> insert (ev_id v) (completedVisits m)
      | _ \<Rightarrow> completedVisits m)"
proof (cases e)
  case (CanvasClick hit)
  have "completedVisits (final (startVisit elderVisits i s)) = completedVisits s" for i s
    by (simp add: startVisit_def set_controls_def and_then_def displayCurrentStep_def final_def
          Let_def split: option.splits)
  moreover have "completedVisits (final (openPopup c i s)) = completedVisits s" for c i s
    by (simp add: openPopup_def set_controls_def final_def Let_def)
  ultimately have "completedVisits (final (dispatch elderVisits z s)) = completedVisits s" for z s
    by (simp add: dispatch_def final_def)
  then show ?thesis using CanvasClick
    by (simp add: onCanvasClick_def Let_def final_def split: option.splits)
next
  case ContinueClick
  let ?m1 = "final (advanceDialogue m)"
  show ?thesis
  proof (cases "continueBtn_onclick m")
    case None
    then show ?thesis using ContinueClick
      by (simp add: continueBtn_click_def advance_completed Let_def)
  next
    case (Some h)
    then show ?thesis using ContinueClick
      by (cases h)
         (simp_all add: continueBtn_click_def advance_completed completeVisit_completed Let_def
            closeDialogue_def set_controls_def split: option.splits)
  qed
next
  case (TimerFires)
  have "completedVisits (final (run_callback cb s)) = completedVisits s" for cb s
    by (cases cb)
       (simp_all add: showSuccess_def update_element_def Let_def split: option.splits)
  then show ?thesis using TimerFires
    by (simp add: timer_fires_def split: list.splits handler.splits option.splits)
next
  case (ExploreClick c)
  have "completedVisits (final (exploreBtn_onclick c m)) = completedVisits m"
    by (rule explore_frame) (simp_all add: mark_completed)
  then show ?thesis using ExploreClick
    by (simp split: option.splits handler.splits)
qed (simp_all add: closeDialogue_def set_controls_def option_click_def handleAnswer_def
       update_element_def closePopup_def escape_key_def Let_def
       split: option.splits handler.splits)


text \<open>
  Claim C10. The constructor sets \<open>completedVisits\<close> to the empty set whatever the page
  holds, so on a newly constructed manager \<open>startVisit\<close> takes the narrative branch for
  every index of the table: the first greeting line is displayed and the continue button
  is bound to \<open>advanceDialogue\<close>, also when the storage already lists the cabin. In any
  state, \<open>startVisit\<close> binds the button to \<open>closeDialogue\<close> (the welcome-back branch)
  exactly when the index is in \<open>completedVisits\<close>, and the only event that changes
  \<open>completedVisits\<close> is a click on the continue button while it is bound to
  \<open>completeVisit\<close> and a visit is in progress: it adds the \<open>id\<close> of that visit.
\<close>

theorem C10_completed_set_in_memory:
  assumes "visitId < length elderVisits"
  shows "completedVisits (IslandInteractionManager p cabins exps ctl) = {}
       \<and> startVisit elderVisits visitId (IslandInteractionManager p cabins exps ctl) =
           Inr ((IslandInteractionManager p cabins exps ctl)
                  \<lparr>currentVisit := Some (elderVisits ! visitId),
                   currentCabinNumber := Num (visitId + 1),
                   dialogueStep := 0,
                   isDialogueOpen := True,
                   controls := map_option (\<lambda>_. False) ctl,
                   speakerName := ev_name (elderVisits ! visitId),
                   speakerLocation := ev_location (elderVisits ! visitId),
                   mathSection_display := DNone,
                   continueBtn_display := Block,
                   storyText := (if ev_greeting (elderVisits ! visitId) = [] then []
                                 else ev_greeting (elderVisits ! visitId) ! 0),
                   continueBtn_text := ''Continue ->'',
                   continueBtn_onclick := Some Advance,
                   overlay_display := Flex\<rparr>)
       \<and> (continueBtn_onclick (final (startVisit elderVisits visitId m)) = Some Close
            \<longleftrightarrow> visitId \<in> completedVisits m)
       \<and> completedVisits (step elderVisits m e) =
           (case (e, continueBtn_onclick m, currentVisit m) of
              (ContinueClick, Some Complete, Some v) \<Rightarrow> insert (ev_id v) (completedVisits m)
            | _ \<Rightarrow> completedVisits m)"
proof -
  have "completedVisits (IslandInteractionManager p cabins exps ctl) = {}"
    by (simp add: IslandInteractionManager_def)
  then show ?thesis
    using fresh_start [OF assms] welcome_iff [OF assms] step_completed by blast
qed

theorem C10_completed_set_in_memory_witness:
  "(0::nat) < length [demo_visit]
   \<and> getVisitedStations (demo_page\<lparr>localStorage := [progress_key \<mapsto> JSON_stringify [''cabin-1'']]\<rparr>)
       = Inr [''cabin-1'']
   \<and> storyText (final (startVisit [demo_visit] 0
         (IslandInteractionManager
            (demo_page\<lparr>localStorage := [progress_key \<mapsto> JSON_stringify [''cabin-1'']]\<rparr>)
            1 (\<lambda>c. [demo_experience]) (Some True))))
       = ''Tansi!''
   \<and> continueBtn_onclick (final (startVisit [demo_visit] 0
         (IslandInteractionManager
            (demo_page\<lparr>localStorage := [progress_key \<mapsto> JSON_stringify [''cabin-1'']]\<rparr>)
            1 (\<lambda>c. [demo_experience]) (Some True))))
       = Some Advance"
proof -
  have h: "(0::nat) < length [demo_visit]" by simp
  have stored: "getVisitedStations
      (demo_page\<lparr>localStorage := [progress_key \<mapsto> JSON_stringify [''cabin-1'']]\<rparr>)
       = Inr [''cabin-1'']"
    by (simp add: getVisitedStations_def JSON_parse_def JSON_stringify_def quote_def
          escape_char_def is_control_def is_ws_def json_elements.simps)
  note inst = C10_completed_set_in_memory [OF h, of
      "demo_page\<lparr>localStorage := [progress_key \<mapsto> JSON_stringify [''cabin-1'']]\<rparr>"
      1 "\<lambda>c. [demo_experience]" "Some True"]
  have "startVisit [demo_visit] 0
         (IslandInteractionManager
            (demo_page\<lparr>localStorage := [progress_key \<mapsto> JSON_stringify [''cabin-1'']]\<rparr>)
            1 (\<lambda>c. [demo_experience]) (Some True)) = Inr
         ((IslandInteractionManager
            (demo_page\<lparr>localStorage := [progress_key \<mapsto> JSON_stringify [''cabin-1'']]\<rparr>)
            1 (\<lambda>c. [demo_experience]) (Some True))
                  \<lparr>currentVisit := Some ([demo_visit] ! 0),
                   currentCabinNumber := Num (0 + 1),
                   dialogueStep := 0,
                   isDialogueOpen := True,
                   controls := map_option (\<lambda>_. False) (Some True),
                   speakerName := ev_name ([demo_visit] ! 0),
                   speakerLocation := ev_location ([demo_visit] ! 0),
                   mathSection_display := DNone,
                   continueBtn_display := Block,
                   storyText := (if ev_greeting ([demo_visit] ! 0) = [] then []
                                 else ev_greeting ([demo_visit] ! 0) ! 0),
                   continueBtn_text := ''Continue ->'',
                   continueBtn_onclick := Some Advance,
                   overlay_display := Flex\<rparr>)"
    using inst by blast
  then have "storyText (final (startVisit [demo_visit] 0
         (IslandInteractionManager
            (demo_page\<lparr>localStorage := [progress_key \<mapsto> JSON_stringify [''cabin-1'']]\<rparr>)
            1 (\<lambda>c. [demo_experience]) (Some True)))) = ''Tansi!''"
    and "continueBtn_onclick (final (startVisit [demo_visit] 0
         (IslandInteractionManager
            (demo_page\<lparr>localStorage := [progress_key \<mapsto> JSON_stringify [''cabin-1'']]\<rparr>)
            1 (\<lambda>c. [demo_experience]) (Some True)))) = Some Advance"
    by (simp_all add: demo_visit_def)
  then show ?thesis using h stored by blast
qed

section \<open>The full cabin flow\<close>

lemma more_eq_fields:
  fixes a b :: app
  assumes "page.more a = page.more b"
  shows "controls a = controls b" and "completedVisits a = completedVisits b"
    and "currentVisit a = currentVisit b" and "overlay_display a = overlay_display b"
    and "isDialogueOpen a = isDialogueOpen b" and "popups a = popups b" and "timers a = timers b"
  using assms by (cases a; cases b; simp)+

lemma advance_n_snoc: "advance_n (Suc k) m = and_then (advance_n k m) advanceDialogue"
proof (induction k arbitrary: m)
  case 0
  show ?case by (cases "advanceDialogue m") simp_all
next
  case (Suc k)
  show ?case
  proof (cases "advanceDialogue m")
    case (Inl x)
    then show ?thesis by simp
  next
    case (Inr m1)
    have "advance_n (Suc (Suc k)) m = advance_n (Suc k) m1" using Inr by simp
    also have "\<dots> = and_then (advance_n k m1) advanceDialogue" by (rule Suc.IH)
    also have "\<dots> = and_then (advance_n (Suc k) m) advanceDialogue" using Inr by simp
    finally show ?thesis .
  qed
qed

lemma advance_n_greeting:
  assumes "currentVisit m = Some v" and "dialogueStep m = 0"
    and "storyText m = ev_greeting v ! 0" and "continueBtn_text m = ''Continue ->''"
    and "k < length (ev_greeting v)"
  shows "advance_n k m =
           Inr (m\<lparr>dialogueStep := k, storyText := ev_greeting v ! k\<rparr>)"
  using assms(5)
proof (induction k)
  case 0
  then show ?case using assms(2,3) by simp
next
  case (Suc k)
  then have "advance_n k m = Inr (m\<lparr>dialogueStep := k, storyText := ev_greeting v ! k\<rparr>)"
    by simp
  then show ?case
    using Suc.prems assms(1,4)
    by (simp add: advance_n_snoc advanceDialogue_Some del: advance_n.simps)
qed

lemma advance_n_math:
  assumes "currentVisit m = Some v" and "dialogueStep m = 0"
    and "storyText m = ev_greeting v ! 0" and "continueBtn_text m = ''Continue ->''"
    and "ev_greeting v \<noteq> []"
  shows "advance_n (length (ev_greeting v)) m =
     Inr (m\<lparr>dialogueStep := length (ev_greeting v),
            storyText := [], mathSection_display := Block,
            mathLabel := mc_label (ev_math v), mathQuestion := mc_question (ev_math v),
            continueBtn_display := DNone,
            optionsGrid := [length (elements m) ..< length (elements m) + length (mc_options (ev_math v))],
            elements := elements m @ map createOptionBtn (mc_options (ev_math v))\<rparr>)"
proof -
  obtain k where k: "length (ev_greeting v) = Suc k"
    using assms(5) by (cases "ev_greeting v") simp_all
  have "advance_n k m = Inr (m\<lparr>dialogueStep := k, storyText := ev_greeting v ! k\<rparr>)"
    by (rule advance_n_greeting [OF assms(1-4)]) (simp add: k)
  then show ?thesis
    using assms(1) k
    by (simp add: advance_n_snoc advanceDialogue_Some showMathQuestion_Some del: advance_n.simps)
qed

lemma start_narrative:
  assumes "visitId < length elderVisits" and "visitId \<notin> completedVisits m"
    and "ev_greeting (elderVisits ! visitId) \<noteq> []"
  shows "startVisit elderVisits visitId m =
     Inr (m\<lparr>currentVisit := Some (elderVisits ! visitId),
            currentCabinNumber := Num (visitId + 1),
            dialogueStep := 0,
            isDialogueOpen := True,
            controls := map_option (\<lambda>_. False) (controls m),
            speakerName := ev_name (elderVisits ! visitId),
            speakerLocation := ev_location (elderVisits ! visitId),
            mathSection_display := DNone,
            continueBtn_display := Block,
            storyText := ev_greeting (elderVisits ! visitId) ! 0,
            continueBtn_text := ''Continue ->'',
            continueBtn_onclick := Some Advance,
            overlay_display := Flex\<rparr>)"
  using assms
  by (simp add: startVisit_def set_controls_def displayCurrentStep_def Let_def)

lemma success_then_acknowledge:
  assumes "currentVisit s = Some v" and "timers s = [ShowSuccess]"
    and "currentCabinNumber s = Num n" and "metisPrairieProgress s"
    and "getVisitedStations s = Inr xs"
  shows "threw (and_then (timer_fires s) acknowledge) = None"
    and "getVisitedStations (final (and_then (timer_fires s) acknowledge))
           = Inr (add_key (key_of ''cabin'' (Num n)) xs)"
    and "overlay_display (final (and_then (timer_fires s) acknowledge)) = DNone"
    and "\<not> isDialogueOpen (final (and_then (timer_fires s) acknowledge))"
    and "currentVisit (final (and_then (timer_fires s) acknowledge)) = None"
    and "controls (final (and_then (timer_fires s) acknowledge))
           = map_option (\<lambda>_. True) (controls s)"
    and "completedVisits (final (and_then (timer_fires s) acknowledge))
           = insert (ev_id v) (completedVisits s)"
proof -
  let ?s4 = "s\<lparr>timers := [], mathSection_display := DNone,
               storyText := mc_success (ev_math v),
               continueBtn_display := Block,
               continueBtn_text := ''Thank you ->'',
               continueBtn_onclick := Some Complete\<rparr>"
  let ?s5 = "?s4\<lparr>completedVisits := insert (ev_id v) (completedVisits s)\<rparr>"
  let ?r = "markStationVisited ''cabin'' (Num n) ?s5"
  have fire: "timer_fires s = Inr ?s4"
    using assms(1,2) by (simp add: timer_fires_def showSuccess_def Let_def)
  have rd: "getVisitedStations ?s5 = Inr xs"
    using assms(5) by (simp add: getVisitedStations_def)
  note mk = mark_reads [OF rd, of "''cabin''" "Num n"]
  obtain s6 where r: "?r = Inr s6"
    using mk(1) by (cases ?r) (auto simp: threw_def)
  have s6: "getVisitedStations s6 = Inr (add_key (key_of ''cabin'' (Num n)) xs)"
    "page.more s6 = page.more ?s5"
    using mk(2) mk(4) by (simp_all add: r)
  have ack: "and_then (timer_fires s) acknowledge = Inr (closeDialogue s6)"
    using assms(1,3,4) r
    by (simp add: fire acknowledge_def completeVisit_def Let_def)
  have same: "page.more (closeDialogue s6) = page.more (closeDialogue ?s5)"
    using s6(2) by (cases s6; cases ?s5) (simp add: closeDialogue_def set_controls_def)
  note f = more_eq_fields [OF same]
  show "threw (and_then (timer_fires s) acknowledge) = None" by (simp add: ack)
  show "getVisitedStations (final (and_then (timer_fires s) acknowledge))
           = Inr (add_key (key_of ''cabin'' (Num n)) xs)"
    using s6(1) by (simp add: ack getVisitedStations_def closeDialogue_def set_controls_def)
  show "overlay_display (final (and_then (timer_fires s) acknowledge)) = DNone"
    by (simp add: ack closeDialogue_def set_controls_def)
  show "\<not> isDialogueOpen (final (and_then (timer_fires s) acknowledge))"
    by (simp add: ack closeDialogue_def set_controls_def)
  show "currentVisit (final (and_then (timer_fires s) acknowledge)) = None"
    by (simp add: ack closeDialogue_def set_controls_def)
  show "controls (final (and_then (timer_fires s) acknowledge))
           = map_option (\<lambda>_. True) (controls s)"
    using f(1) by (simp add: ack closeDialogue_def set_controls_def)
  show "completedVisits (final (and_then (timer_fires s) acknowledge))
           = insert (ev_id v) (completedVisits s)"
    using f(2) by (simp add: ack closeDialogue_def set_controls_def)
qed

text \<open>
  Claim C6. Let \<open>visitId\<close> index the table, let the visit have at least one greeting
  line and let option \<open>j\<close> of its math challenge be correct; let the visit not be in the
  completed set, no timer be pending, the progress store be published and the visited list
  read as \<open>xs\<close>. Then \<open>startVisit\<close>, one \<open>advanceDialogue\<close> per greeting line, the click
  on option \<open>j\<close>, the firing of the timer and the handler then bound to the continue
  button all return normally. At the end the visited list read from the storage is \<open>xs\<close>
  with the key \<open>cabin-(visitId + 1)\<close>, the overlay is hidden, \<open>isDialogueOpen\<close> is false,
  \<open>currentVisit\<close> is \<open>null\<close>, the controls are enabled and the visit's \<open>id\<close> is in the
  completed set.
\<close>

theorem C6_full_cabin_flow:
  assumes "visitId < length elderVisits"
    and "ev_greeting (elderVisits ! visitId) \<noteq> []"
    and "j < length (mc_options (ev_math (elderVisits ! visitId)))"
    and "opt_correct (mc_options (ev_math (elderVisits ! visitId)) ! j)"
    and "visitId \<notin> completedVisits m" and "timers m = []"
    and "metisPrairieProgress m" and "getVisitedStations m = Inr xs"
  shows "threw (cabin_flow elderVisits visitId j m) = None
       \<and> getVisitedStations (final (cabin_flow elderVisits visitId j m))
           = Inr (add_key (''cabin-'' @ show_nat (visitId + 1)) xs)
       \<and> ''cabin-'' @ show_nat (visitId + 1) \<in> set (add_key (''cabin-'' @ show_nat (visitId + 1)) xs)
       \<and> overlay_display (final (cabin_flow elderVisits visitId j m)) = DNone
       \<and> \<not> isDialogueOpen (final (cabin_flow elderVisits visitId j m))
       \<and> currentVisit (final (cabin_flow elderVisits visitId j m)) = None
       \<and> controls (final (cabin_flow elderVisits visitId j m)) = map_option (\<lambda>_. True) (controls m)
       \<and> completedVisits (final (cabin_flow elderVisits visitId j m))
           = insert (ev_id (elderVisits ! visitId)) (completedVisits m)"
proof -
  define v where "v = elderVisits ! visitId"
  let ?opts = "mc_options (ev_math v)"
  let ?s0 = "m\<lparr>currentVisit := Some v,
            currentCabinNumber := Num (visitId + 1),
            dialogueStep := 0,
            isDialogueOpen := True,
            controls := map_option (\<lambda>_. False) (controls m),
            speakerName := ev_name v,
            speakerLocation := ev_location v,
            mathSection_display := DNone,
            continueBtn_display := Block,
            storyText := ev_greeting v ! 0,
            continueBtn_text := ''Continue ->'',
            continueBtn_onclick := Some Advance,
            overlay_display := Flex\<rparr>"
  let ?s2 = "?s0\<lparr>dialogueStep := length (ev_greeting v),
            storyText := [], mathSection_display := Block,
            mathLabel := mc_label (ev_math v), mathQuestion := mc_question (ev_math v),
            continueBtn_display := DNone,
            optionsGrid := [length (elements ?s0) ..< length (elements ?s0) + length ?opts],
            elements := elements ?s0 @ map createOptionBtn ?opts\<rparr>"
  have st: "startVisit elderVisits visitId m = Inr ?s0"
    using start_narrative [OF assms(1,5,2)] by (simp add: v_def)
  have adv: "advance_n (length (ev_greeting v)) ?s0 = Inr ?s2"
    by (rule advance_n_math) (use assms(2) in \<open>simp_all add: v_def\<close>)
  define s3 where "s3 = option_click j ?s2"
  have s3: "currentVisit s3 = Some v" "timers s3 = [ShowSuccess]"
    "currentCabinNumber s3 = Num (visitId + 1)" "metisPrairieProgress s3"
    "getVisitedStations s3 = Inr xs" "controls s3 = map_option (\<lambda>_. False) (controls m)"
    "completedVisits s3 = completedVisits m"
    using assms(3,4,6,7,8)
    by (simp_all add: s3_def v_def option_click_def handleAnswer_def update_element_def
          nth_append createOptionBtn_def getVisitedStations_def)
  have flow: "cabin_flow elderVisits visitId j m = and_then (timer_fires s3) acknowledge"
    using adv by (simp add: cabin_flow_def st s3_def v_def)
  note fin = success_then_acknowledge [OF s3(1-5)]
  have key: "key_of ''cabin'' (Num (visitId + 1)) = ''cabin-'' @ show_nat (visitId + 1)"
    by (simp add: key_of_def)
  have mem: "''cabin-'' @ show_nat (visitId + 1) \<in> set (add_key (''cabin-'' @ show_nat (visitId + 1)) xs)"
    by (simp add: add_key_def)
  have ctl: "controls (final (cabin_flow elderVisits visitId j m)) = map_option (\<lambda>_. True) (controls m)"
    using fin(6) s3(6) by (simp add: flow option.map_comp comp_def)
  have cmp: "completedVisits (final (cabin_flow elderVisits visitId j m))
           = insert (ev_id (elderVisits ! visitId)) (completedVisits m)"
    using fin(7) s3(7) by (simp add: flow v_def)
  show ?thesis
    using fin(1-5) mem ctl cmp unfolding flow key by blast
qed

theorem C6_full_cabin_flow_witness:
  "(0::nat) < length [demo_visit]
   \<and> ev_greeting ([demo_visit] ! 0) \<noteq> []
   \<and> (1::nat) < length (mc_options (ev_math ([demo_visit] ! 0)))
   \<and> opt_correct (mc_options (ev_math ([demo_visit] ! 0)) ! 1)
   \<and> 0 \<notin> completedVisits demo_manager \<and> timers demo_manager = []
   \<and> metisPrairieProgress demo_manager \<and> getVisitedStations demo_manager = Inr []
   \<and> threw (cabin_flow [demo_visit] 0 1 demo_manager) = None
   \<and> getVisitedStations (final (cabin_flow [demo_visit] 0 1 demo_manager)) = Inr [''cabin-1'']
   \<and> overlay_display (final (cabin_flow [demo_visit] 0 1 demo_manager)) = DNone
   \<and> currentVisit (final (cabin_flow [demo_visit] 0 1 demo_manager)) = None
   \<and> controls (final (cabin_flow [demo_visit] 0 1 demo_manager)) = Some True"
proof -
  have h1: "(0::nat) < length [demo_visit]" by simp
  have h2: "ev_greeting ([demo_visit] ! 0) \<noteq> []"
    and h3: "(1::nat) < length (mc_options (ev_math ([demo_visit] ! 0)))"
    and h4: "opt_correct (mc_options (ev_math ([demo_visit] ! 0)) ! 1)"
    by (simp_all add: demo_visit_def)
  have h5: "0 \<notin> completedVisits demo_manager" and h6: "timers demo_manager = []"
    and h7: "metisPrairieProgress demo_manager"
    and h8: "getVisitedStations demo_manager = Inr []"
    and ctl: "controls demo_manager = Some True"
    by (simp_all add: demo_manager_def demo_page_def IslandInteractionManager_def
          getVisitedStations_def)
  note inst = C6_full_cabin_flow [OF h1 h2 h3 h4 h5 h6 h7 h8]
  have k: "add_key (''cabin-'' @ show_nat (0 + 1)) [] = [''cabin-1'']"
    by (simp add: add_key_def show_nat.simps digit_char_def)
  have "getVisitedStations (final (cabin_flow [demo_visit] 0 1 demo_manager)) = Inr [''cabin-1'']"
    using inst k by simp
  moreover have "controls (final (cabin_flow [demo_visit] 0 1 demo_manager)) = Some True"
    using inst ctl by simp
  ultimately show ?thesis using h1 h2 h3 h4 h5 h6 h7 h8 inst by blast
qed

text \<open>
  The same visit as a run of user-interface events on the sample data. The visit has two
  greeting lines: the click on the continue button runs \<open>advanceDialogue\<close> twice (the
  listener of \<open>setupEvents\<close> and the \<open>onclick\<close> handler), so one click leads to the math
  question.
\<close>

lemma ui_run_sample:
  "getVisitedStations
     (run [demo_visit] demo_manager
        [CanvasClick (Some \<lparr>zone_type = ''cabin'', zone_id = 0\<rparr>), ContinueClick,
         OptionClick 1, TimerFires, ContinueClick]) = Inr [''cabin-1'']"
  "overlay_display
     (run [demo_visit] demo_manager
        [CanvasClick (Some \<lparr>zone_type = ''cabin'', zone_id = 0\<rparr>), ContinueClick,
         OptionClick 1, TimerFires, ContinueClick]) = DNone"
  "mathSection_display
     (run [demo_visit] demo_manager
        [CanvasClick (Some \<lparr>zone_type = ''cabin'', zone_id = 0\<rparr>), ContinueClick]) = Block"
  by (simp_all add: run_def demo_manager_def demo_page_def demo_visit_def
        IslandInteractionManager_def onCanvasClick_def popup_open_def all_categories_def
        dispatch_def startVisit_def set_controls_def displayCurrentStep_def
        continueBtn_click_def advanceDialogue_def showMathQuestion_def appendOption_def
        createOptionBtn_def option_click_def handleAnswer_def update_element_def
        classList_add_def timer_fires_def showSuccess_def completeVisit_def
        markStationVisited_def updateProgressUI_def getVisitedStations_def closeDialogue_def
        TOTAL_STATIONS_def JSON_roundtrip JSON_stringify_nonempty
        show_nat.simps digit_char_def Let_def)

section \<open>Answers to the math question\<close>

lemmas demo_defs = demo_manager_def demo_page_def demo_visit_def demo_experience_def
  IslandInteractionManager_def
lemmas method_defs = startVisit_def advanceDialogue_def displayCurrentStep_def showMathQuestion_def
  handleAnswer_def showSuccess_def closeDialogue_def timer_fires_def set_controls_def
  update_element_def classList_add_def classList_remove_def appendOption_def createOptionBtn_def
  and_then_def final_def threw_def


lemma demo_math_facts:
  "currentVisit demo_math = Some demo_visit"
  "mathSection_display demo_math = Block"
  "optionsGrid demo_math = [0, 1]"
  "map btn_correct (elements demo_math) = [False, True]"
  "timers demo_math = []"
  "overlay_display demo_math = Flex"
  by (simp_all add: demo_math_def demo_defs method_defs Let_def)

text \<open>
  Claim C1. On the sample visit: the correct option (button 1) is selected while the math
  question is displayed, then the dialogue is closed before the 500 ms have passed. The
  timer is still pending and \<open>currentVisit\<close> is \<open>null\<close>; when the timer fires,
  \<open>showSuccess\<close> hides the math section and throws \<open>TypeError\<close> on
  \<open>this.currentVisit.math\<close>. The lemma after it says the same of every state with no
  other timer pending.
\<close>

theorem C1_close_during_delay:
  "currentVisit (closeDialogue (handleAnswer 1 True demo_math)) = None
   \<and> timers (closeDialogue (handleAnswer 1 True demo_math)) = [ShowSuccess]
   \<and> threw (timer_fires (closeDialogue (handleAnswer 1 True demo_math))) = Some TypeError
   \<and> mathSection_display (final (timer_fires (closeDialogue (handleAnswer 1 True demo_math)))) = DNone"
  by (simp add: demo_math_def demo_defs method_defs Let_def)

lemma close_then_success_throws:
  assumes "timers m = []"
  shows "timer_fires (closeDialogue (handleAnswer btn True m)) =
     Inl (TypeError, (closeDialogue (update_element btn (classList_add ''correct'') m))\<lparr>mathSection_display := DNone\<rparr>)"
  using assms
  by (simp add: timer_fires_def closeDialogue_def handleAnswer_def showSuccess_def set_controls_def
       update_element_def Let_def)

lemma wrong_answer:
  assumes "btn < length (elements m)" and "timers m = []"
  shows "handleAnswer btn False m =
           m\<lparr>elements := (elements m)[btn := classList_add ''wrong'' (elements m ! btn)],
             timers := [RemoveWrong btn]\<rparr>"
    and "''wrong'' \<in> set (btn_classes (elements (handleAnswer btn False m) ! btn))"
    and "timer_fires (handleAnswer btn False m) =
           Inr (m\<lparr>elements := (elements m)[btn := classList_remove ''wrong'' (elements m ! btn)]\<rparr>)"
    and "''wrong'' \<notin> set (btn_classes (elements (final (timer_fires (handleAnswer btn False m))) ! btn))"
  using assms
  by (auto simp add: handleAnswer_def update_element_def timer_fires_def final_def
        classList_add_def classList_remove_def)

lemma wrong_answer_restores:
  assumes "btn < length (elements m)" and "timers m = []"
    and "''wrong'' \<notin> set (btn_classes (elements m ! btn))"
  shows "retry m btn = m"
proof -
  have "classList_remove ''wrong'' (elements m ! btn) = elements m ! btn"
    using assms(3) by (simp add: classList_remove_def)
  then show ?thesis
    using wrong_answer(3) [OF assms(1,2)] by (simp add: retry_def final_def)
qed

text \<open>
  Claim C8. Let the math question of visit \<open>v\<close> be displayed (the state \<open>m\<close> that
  \<open>showMathQuestion\<close> returns, no timer pending) and let option \<open>i\<close> be incorrect. The
  click on option \<open>i\<close> changes two things only: its button gets the class \<open>wrong\<close> and
  one timer is set. The math section stays displayed for the same visit, and the storage,
  hence the visited list, is untouched. When the timer
  fires the state is \<open>m\<close> again: the mark is gone and every option is bound as before.
  Any number of wrong answers, each followed by its timer, ends in \<open>m\<close>.
\<close>

theorem C8_wrong_answer_retry:
  assumes "currentVisit m0 = Some v" and "timers m0 = []"
    and "i < length (mc_options (ev_math v))"
    and "\<not> opt_correct (mc_options (ev_math v) ! i)"
  shows "let m = final (showMathQuestion m0); btn = length (elements m0) + i in
           mathSection_display m = Block \<and> currentVisit m = Some v
         \<and> option_click i m =
              m\<lparr>elements := (elements m)[btn := classList_add ''wrong'' (elements m ! btn)],
                timers := [RemoveWrong btn]\<rparr>
         \<and> ''wrong'' \<in> set (btn_classes (elements (option_click i m) ! btn))
         \<and> localStorage (option_click i m) = localStorage m
         \<and> getVisitedStations (option_click i m) = getVisitedStations m
         \<and> timer_fires (option_click i m) = Inr m
         \<and> (\<forall>js. (\<forall>j \<in> set js. j < length (mc_options (ev_math v))
                               \<and> \<not> opt_correct (mc_options (ev_math v) ! j))
                \<longrightarrow> foldl wrong_then_wait m js = m)"
proof -
  define m where "m = final (showMathQuestion m0)"
  define btn where "btn = length (elements m0) + i"
  let ?opts = "mc_options (ev_math v)"
  have m_eq: "m = m0\<lparr>storyText := [], mathSection_display := Block,
            mathLabel := mc_label (ev_math v), mathQuestion := mc_question (ev_math v),
            continueBtn_display := DNone,
            optionsGrid := [length (elements m0) ..< length (elements m0) + length ?opts],
            elements := elements m0 @ map createOptionBtn ?opts\<rparr>"
    by (simp add: m_def showMathQuestion_Some [OF assms(1)] final_def)
  have tm: "timers m = []" using assms(2) by (simp add: m_eq)
  have click: "option_click j m = handleAnswer (length (elements m0) + j) False m"
    and valid: "length (elements m0) + j < length (elements m)"
    and clean: "''wrong'' \<notin> set (btn_classes (elements m ! (length (elements m0) + j)))"
    if "j < length ?opts" "\<not> opt_correct (?opts ! j)" for j
    using that by (simp_all add: m_eq option_click_def nth_append createOptionBtn_def)
  have wait: "wrong_then_wait m j = m"
    if "j < length ?opts" "\<not> opt_correct (?opts ! j)" for j
    using wrong_answer_restores [OF valid [OF that] tm clean [OF that]] click [OF that]
    by (simp add: wrong_then_wait_def retry_def)
  have many: "foldl wrong_then_wait m js = m"
    if "\<forall>j \<in> set js. j < length ?opts \<and> \<not> opt_correct (?opts ! j)" for js
    using that by (induction js) (simp_all add: wait)
  note w = wrong_answer [OF valid [OF assms(3,4)] tm]
  have c1: "option_click i m =
              m\<lparr>elements := (elements m)[btn := classList_add ''wrong'' (elements m ! btn)],
                timers := [RemoveWrong btn]\<rparr>"
    using w(1) click [OF assms(3,4)] by (simp add: btn_def)
  have c2: "''wrong'' \<in> set (btn_classes (elements (option_click i m) ! btn))"
    using w(2) click [OF assms(3,4)] by (simp add: btn_def)
  have c3: "localStorage (option_click i m) = localStorage m" by (simp add: c1)
  then have c4: "getVisitedStations (option_click i m) = getVisitedStations m"
    by (simp add: getVisitedStations_def)
  have c5: "timer_fires (option_click i m) = Inr m"
  proof -
    have "classList_remove ''wrong'' (elements m ! btn) = elements m ! btn"
      using clean [OF assms(3,4)] by (simp add: classList_remove_def btn_def)
    then show ?thesis
      using w(3) click [OF assms(3,4)] by (simp add: btn_def)
  qed
  have c0: "mathSection_display m = Block \<and> currentVisit m = Some v"
    using assms(1) by (simp add: m_eq)
  show ?thesis
    unfolding Let_def m_def [symmetric] btn_def [symmetric]
    using c0 c1 c2 c3 c4 c5 many by blast
qed

theorem C8_wrong_answer_retry_witness:
  "currentVisit (final (startVisit [demo_visit] 0 demo_manager)) = Some demo_visit
   \<and> timers (final (startVisit [demo_visit] 0 demo_manager)) = []
   \<and> (0::nat) < length (mc_options (ev_math demo_visit))
   \<and> \<not> opt_correct (mc_options (ev_math demo_visit) ! 0)
   \<and> timer_fires (option_click 0 (final (showMathQuestion (final (startVisit [demo_visit] 0 demo_manager)))))
       = Inr (final (showMathQuestion (final (startVisit [demo_visit] 0 demo_manager))))
   \<and> foldl wrong_then_wait (final (showMathQuestion (final (startVisit [demo_visit] 0 demo_manager)))) [0, 0, 0]
       = final (showMathQuestion (final (startVisit [demo_visit] 0 demo_manager)))"
proof -
  have h1: "currentVisit (final (startVisit [demo_visit] 0 demo_manager)) = Some demo_visit"
    and h2: "timers (final (startVisit [demo_visit] 0 demo_manager)) = []"
    by (simp_all add: demo_manager_def IslandInteractionManager_def demo_visit_def startVisit_def
          and_then_def displayCurrentStep_def set_controls_def final_def Let_def)
  have h3: "(0::nat) < length (mc_options (ev_math demo_visit))"
    and h4: "\<not> opt_correct (mc_options (ev_math demo_visit) ! 0)"
    by (simp_all add: demo_visit_def)
  note inst = C8_wrong_answer_retry [OF h1 h2 h3 h4, unfolded Let_def]
  let ?M = "final (showMathQuestion (final (startVisit [demo_visit] 0 demo_manager)))"
  have fires: "timer_fires (option_click 0 ?M) = Inr ?M"
    using inst by blast
  have "\<forall>js. (\<forall>j \<in> set js. j < length (mc_options (ev_math demo_visit))
                               \<and> \<not> opt_correct (mc_options (ev_math demo_visit) ! j))
                \<longrightarrow> foldl wrong_then_wait ?M js = ?M"
    using inst by blast
  then have "(\<forall>j \<in> set [0, 0, 0]. j < length (mc_options (ev_math demo_visit))
                               \<and> \<not> opt_correct (mc_options (ev_math demo_visit) ! j))
                \<longrightarrow> foldl wrong_then_wait ?M [0, 0, 0] = ?M"
    by (rule spec)
  moreover have "\<forall>j \<in> set [0, 0, 0::nat]. j < length (mc_options (ev_math demo_visit))
                               \<and> \<not> opt_correct (mc_options (ev_math demo_visit) ! j)"
    using h3 h4 by simp
  ultimately have "foldl wrong_then_wait ?M [0, 0, 0] = ?M" by (rule mp)
  then show ?thesis using h1 h2 h3 h4 fires by blast
qed

section \<open>The picking gate\<close>

lemma popup_open_iff: "popup_open m \<longleftrightarrow> (\<exists>c. popup_display (popups m c) = Flex)"
proof -
  have "set all_categories = UNIV"
  proof -
    have "c \<in> set all_categories" for c by (cases c) (simp_all add: all_categories_def)
    then show ?thesis by blast
  qed
  then show ?thesis by (simp add: popup_open_def list_ex_iff)
qed

lemma mark_frame:
  fixes m :: app
  shows "overlay_display (final (markStationVisited k i m)) = overlay_display m"
    and "isDialogueOpen (final (markStationVisited k i m)) = isDialogueOpen m"
    and "popups (final (markStationVisited k i m)) = popups m"
  by (simp_all add: markStationVisited_def updateProgressUI_def showCompletionMessage_def
        final_def Let_def split: sum.splits)

lemma exclusive_closeDialogue: "exclusive m \<Longrightarrow> exclusive (closeDialogue m)"
  by (simp add: exclusive_def closeDialogue_def set_controls_def)

lemma exclusive_closePopup: "exclusive m \<Longrightarrow> exclusive (closePopup c m)"
  by (auto simp add: exclusive_def closePopup_def set_controls_def)

lemma exclusive_startVisit:
  assumes "exclusive m" "\<not> popup_open m"
  shows "exclusive (final (startVisit evs i m))"
  using assms
  by (auto simp: exclusive_def popup_open_iff startVisit_def set_controls_def final_def and_then_def
        displayCurrentStep_def Let_def split: option.splits)

lemma exclusive_openPopup:
  assumes "exclusive m" "\<not> popup_open m" "\<not> isDialogueOpen m"
  shows "exclusive (final (openPopup c i m))"
  using assms
  by (auto simp: exclusive_def popup_open_iff openPopup_def set_controls_def final_def Let_def)

lemma exclusive_raycast: "exclusive (m\<lparr>raycasts := n\<rparr>) = exclusive m"
  by (simp add: exclusive_def)

lemma exclusive_onCanvasClick:
  assumes "exclusive m"
  shows "exclusive (final (onCanvasClick evs hit m))"
proof (cases "isDialogueOpen m \<or> popup_open m")
  case True
  then show ?thesis using assms by (auto simp: onCanvasClick_def final_def)
next
  case False
  let ?m1 = "m\<lparr>raycasts := raycasts m + 1\<rparr>"
  have e1: "exclusive ?m1" using assms by (simp add: exclusive_raycast)
  have p1: "\<not> popup_open ?m1" "\<not> isDialogueOpen ?m1"
    using False by (simp_all add: popup_open_def)
  have "exclusive (final (dispatch evs z ?m1))" for z
    unfolding dispatch_def
    using exclusive_startVisit [OF e1 p1(1)] exclusive_openPopup [OF e1 p1]  e1
    by (simp add: final_def)
  then show ?thesis using False e1
    by (simp add: onCanvasClick_def Let_def final_def split: option.splits)
qed


lemma exclusive_cong:
  assumes "overlay_display m' = overlay_display m" "isDialogueOpen m' = isDialogueOpen m"
    "popups m' = popups m"
  shows "exclusive m' = exclusive m"
  using assms by (simp add: exclusive_def)

lemma advanceDialogue_frame:
  "overlay_display (final (advanceDialogue m)) = overlay_display m"
  "isDialogueOpen (final (advanceDialogue m)) = isDialogueOpen m"
  "popups (final (advanceDialogue m)) = popups m"
  by (simp_all add: advanceDialogue_def displayCurrentStep_def showMathQuestion_def
        foldl_appendOption final_def Let_def split: option.splits)

lemma completeVisit_exclusive:
  assumes "exclusive m"
  shows "exclusive (final (completeVisit m))"
proof (cases "currentVisit m")
  case None
  then show ?thesis using assms by (simp add: completeVisit_def final_def)
next
  case (Some v)
  let ?m1 = "m\<lparr>completedVisits := insert (ev_id v) (completedVisits m)\<rparr>"
  have e1: "exclusive ?m1" using assms by (simp add: exclusive_def)
  show ?thesis
  proof (cases "metisPrairieProgress m")
    case False
    then show ?thesis using Some e1
      by (simp add: completeVisit_def final_def and_then_def Let_def exclusive_closeDialogue)
  next
    case True
    let ?r = "markStationVisited ''cabin'' (currentCabinNumber m) ?m1"
    have e2: "exclusive (final ?r)"
      using e1 exclusive_cong [OF mark_frame, of "''cabin''" "currentCabinNumber m" ?m1 ] by simp
    show ?thesis
    proof (cases ?r)
      case (Inl x)
      then show ?thesis using Some True e2
        by (simp add: completeVisit_def final_def and_then_def Let_def)
    next
      case (Inr m2)
      then show ?thesis using Some True e2
        by (simp add: completeVisit_def final_def and_then_def Let_def exclusive_closeDialogue)
    qed
  qed
qed

lemma exclusive_continueBtn_click:
  assumes "exclusive m"
  shows "exclusive (continueBtn_click m)"
proof -
  let ?m1 = "final (advanceDialogue m)"
  have e1: "exclusive ?m1"
    using assms exclusive_cong [OF advanceDialogue_frame, of m] by simp
  have "exclusive (final (run_handler h ?m1))" for h
  proof (cases h)
    case Advance
    then show ?thesis using e1 exclusive_cong [OF advanceDialogue_frame, of ?m1] by simp
  next
    case Close
    then show ?thesis using e1 by (simp add: final_def exclusive_closeDialogue)
  next
    case Complete
    then show ?thesis using completeVisit_exclusive [OF e1] by simp
  qed
  then show ?thesis using e1
    by (simp add: continueBtn_click_def Let_def split: option.splits)
qed

lemma exclusive_option_click:
  assumes "exclusive m"
  shows "exclusive (option_click i m)"
  using assms
  by (simp add: option_click_def handleAnswer_def update_element_def exclusive_def Let_def)

lemma exclusive_timer_fires:
  assumes "exclusive m"
  shows "exclusive (final (timer_fires m))"
proof (cases "timers m")
  case Nil
  then show ?thesis using assms by (simp add: timer_fires_def final_def)
next
  case (Cons cb rest)
  then show ?thesis using assms
    by (cases cb)
       (simp_all add: timer_fires_def final_def showSuccess_def update_element_def exclusive_def
          Let_def split: option.splits)
qed

lemma exclusive_explore:
  assumes "exclusive m"
  shows "exclusive (final (exploreBtn_onclick c m))"
proof (cases "explore_onclick (popups m c)")
  case None
  then show ?thesis using assms by (simp add: exploreBtn_onclick_def final_def)
next
  case (Some a)
  obtain k i url where a: "a = (k, i, url)" by (cases a)
  show ?thesis
  proof (cases "metisPrairieProgress m")
    case False
    then show ?thesis using Some a assms
      by (simp add: exploreBtn_onclick_def final_def and_then_def exclusive_def)
  next
    case True
    let ?r = "markStationVisited k (Num i) m"
    have e2: "exclusive (final ?r)"
      using assms exclusive_cong [OF mark_frame, of k "Num i" m] by simp
    show ?thesis
    proof (cases ?r)
      case (Inl x)
      then show ?thesis using Some a True e2
        by (simp add: exploreBtn_onclick_def final_def and_then_def)
    next
      case (Inr m2)
      then show ?thesis using Some a True e2
        by (simp add: exploreBtn_onclick_def final_def and_then_def exclusive_def)
    qed
  qed
qed

lemma exclusive_escape_key:
  assumes "exclusive m"
  shows "exclusive (escape_key m)"
  unfolding escape_key_def
  by (intro exclusive_closePopup exclusive_closeDialogue assms)

lemma exclusive_step:
  assumes "exclusive m"
  shows "exclusive (step evs m e)"
  using assms
  by (cases e)
     (simp_all add: exclusive_onCanvasClick exclusive_continueBtn_click exclusive_closeDialogue
        exclusive_option_click exclusive_timer_fires exclusive_closePopup exclusive_explore
        exclusive_escape_key)

lemma exclusive_run:
  assumes "exclusive m"
  shows "exclusive (run evs m es)"
  using assms unfolding run_def
  by (induction es arbitrary: m) (simp_all add: exclusive_step)

lemma exclusive_initial: "exclusive (IslandInteractionManager p cabins exps ctl)"
proof -
  have "popup_display (createPopupUI c) = Unset" for c by (cases c) simp_all
  then show ?thesis by (simp add: exclusive_def IslandInteractionManager_def)
qed

lemma filter_at_most_one:
  assumes "distinct xs" "\<And>x y. P x \<Longrightarrow> P y \<Longrightarrow> x = y"
  shows "length (filter P xs) \<le> 1"
  using assms
proof (induction xs)
  case Nil
  then show ?case by simp
next
  case (Cons a xs)
  show ?case
  proof (cases "P a")
    case True
    have "filter P xs = []"
    proof -
      have "\<not> P x" if "x \<in> set xs" for x
        using Cons.prems(2) [OF True, of x] Cons.prems(1) that by auto
      then show ?thesis by (simp add: filter_empty_conv)
    qed
    with True show ?thesis by simp
  next
    case False
    then show ?thesis using Cons by simp
  qed
qed

lemma exclusive_open_overlays:
  assumes "exclusive m"
  shows "open_overlays m \<le> 1"
proof (cases "isDialogueOpen m")
  case True
  then have "filter (\<lambda>c. popup_display (popups m c) = Flex) all_categories = []"
    using assms by (simp add: exclusive_def filter_empty_conv)
  then show ?thesis by (simp add: open_overlays_def)
next
  case False
  then have "overlay_display m \<noteq> Flex" using assms by (auto simp: exclusive_def)
  moreover have "length (filter (\<lambda>c. popup_display (popups m c) = Flex) all_categories) \<le> 1"
  proof (rule filter_at_most_one)
    show "distinct all_categories" by (simp add: all_categories_def)
  next
    fix x y
    assume "popup_display (popups m x) = Flex" "popup_display (popups m y) = Flex"
    then show "x = y" using assms by (simp add: exclusive_def)
  qed
  ultimately show ?thesis by (simp add: open_overlays_def)
qed

text \<open>
  Claim C4. A canvas click that arrives while \<open>isDialogueOpen\<close> is set, or while one of
  the seven popups is displayed (\<open>style.display\<close> is \<open>flex\<close>), returns at once: the state
  is the same, the ray-cast counter included, whatever the click would have hit. As every
  overlay is opened by \<open>onCanvasClick\<close> alone, in every run of events from a newly
  constructed manager at most one of the eight overlays is on display.
\<close>

theorem C4_picking_gate:
  "((isDialogueOpen m \<or> popup_open m) \<longrightarrow> onCanvasClick elderVisits hit m = Inr m)
   \<and> open_overlays (run elderVisits (IslandInteractionManager p cabins exps ctl) es) \<le> 1"
  using exclusive_open_overlays [OF exclusive_run [OF exclusive_initial]]
  by (auto simp: onCanvasClick_def)

theorem C4_picking_gate_witness:
  "isDialogueOpen (final (startVisit [demo_visit] 0 demo_manager))
   \<and> onCanvasClick [demo_visit] (Some \<lparr>zone_type = ''fireplace'', zone_id = 0\<rparr>)
         (final (startVisit [demo_visit] 0 demo_manager))
       = Inr (final (startVisit [demo_visit] 0 demo_manager))
   \<and> open_overlays (run [demo_visit] demo_manager
         [CanvasClick (Some \<lparr>zone_type = ''cabin'', zone_id = 0\<rparr>),
          CanvasClick (Some \<lparr>zone_type = ''fireplace'', zone_id = 0\<rparr>)]) \<le> 1"
proof -
  have h: "isDialogueOpen (final (startVisit [demo_visit] 0 demo_manager))"
    by (simp add: startVisit_def demo_manager_def IslandInteractionManager_def set_controls_def
          and_then_def displayCurrentStep_def final_def Let_def)
  show ?thesis
    using h
      C4_picking_gate [of "final (startVisit [demo_visit] 0 demo_manager)" "[demo_visit]"
        "Some \<lparr>zone_type = ''fireplace'', zone_id = 0\<rparr>" demo_page 1
        "\<lambda>c. [demo_experience]" "Some True"
        "[CanvasClick (Some \<lparr>zone_type = ''cabin'', zone_id = 0\<rparr>),
          CanvasClick (Some \<lparr>zone_type = ''fireplace'', zone_id = 0\<rparr>)]"]
    by (simp add: demo_manager_def)
qed

section \<open>Opening and closing an overlay\<close>


lemma open_close_popup:
  assumes "i < length (experiences m c)"
  shows "openPopup c i m =
           Inr (m\<lparr>controls := map_option (\<lambda>_. False) (controls m),
                  popups := (popups m)
                    (c := (populate c (experiences m c ! i) (popups m c))
                            \<lparr>explore_onclick := Some (station_type c, i, exp_url (experiences m c ! i)),
                             popup_display := Flex\<rparr>)\<rparr>)"
    and "closePopup c (final (openPopup c i m)) =
           m\<lparr>controls := map_option (\<lambda>_. True) (controls m),
             popups := (popups m)
               (c := (populate c (experiences m c ! i) (popups m c))
                       \<lparr>explore_onclick := Some (station_type c, i, exp_url (experiences m c ! i)),
                        popup_display := DNone\<rparr>)\<rparr>"
  using assms
  by (simp_all add: openPopup_def closePopup_def set_controls_def final_def Let_def
        option.map_comp comp_def)

lemma start_then_close:
  assumes "visitId < length elderVisits"
  shows "threw (startVisit elderVisits visitId m) = None"
    and "closeDialogue (final (startVisit elderVisits visitId m)) =
      m\<lparr>currentVisit := None,
        currentCabinNumber := Num (visitId + 1),
        dialogueStep := 0,
        isDialogueOpen := False,
        controls := map_option (\<lambda>_. True) (controls m),
        overlay_display := DNone,
        speakerName := ev_name (elderVisits ! visitId),
        speakerLocation := ev_location (elderVisits ! visitId),
        mathSection_display := DNone,
        continueBtn_display := Block,
        storyText :=
          (if visitId \<in> completedVisits m then welcome_back
           else if ev_greeting (elderVisits ! visitId) = [] then storyText m
           else ev_greeting (elderVisits ! visitId) ! 0),
        continueBtn_text :=
          (if visitId \<in> completedVisits m then ''Leave ->''
           else if ev_greeting (elderVisits ! visitId) = [] then continueBtn_text m
           else ''Continue ->''),
        continueBtn_onclick := Some (if visitId \<in> completedVisits m then Close else Advance)\<rparr>"
  using assms
  by (simp_all add: startVisit_def closeDialogue_def set_controls_def
        displayCurrentStep_def Let_def option.map_comp comp_def)

lemma close_paths:
  "controls (closeDialogue m) = map_option (\<lambda>_. True) (controls m)"
  "controls (closePopup c m) = map_option (\<lambda>_. True) (controls m)"
  "controls (escape_key m) = map_option (\<lambda>_. True) (controls m)"
  by (simp_all add: closeDialogue_def closePopup_def escape_key_def set_controls_def
        option.map_comp comp_def)

lemma completeVisit_closes:
  assumes "currentVisit m = Some v"
    and "\<not> metisPrairieProgress m \<or> getVisitedStations m = Inr xs"
  shows "threw (completeVisit m) = None"
    and "controls (final (completeVisit m)) = map_option (\<lambda>_. True) (controls m)"
    and "overlay_display (final (completeVisit m)) = DNone"
    and "\<not> isDialogueOpen (final (completeVisit m))"
    and "currentVisit (final (completeVisit m)) = None"
proof -
  let ?m1 = "m\<lparr>completedVisits := insert (ev_id v) (completedVisits m)\<rparr>"
  have "\<exists>s. completeVisit m = Inr (closeDialogue s) \<and> page.more s = page.more ?m1"
  proof (cases "metisPrairieProgress m")
    case False
    then have "completeVisit m = Inr (closeDialogue ?m1)"
      using assms(1) by (simp add: completeVisit_def Let_def)
    then show ?thesis by blast
  next
    case True
    then have rd: "getVisitedStations ?m1 = Inr xs"
      using assms(2) by (simp add: getVisitedStations_def)
    note mk = mark_reads [OF rd, of "''cabin''" "currentCabinNumber m"]
    obtain s where r: "markStationVisited ''cabin'' (currentCabinNumber m) ?m1 = Inr s"
      using mk(1) by (cases "markStationVisited ''cabin'' (currentCabinNumber m) ?m1")
        (auto simp: threw_def)
    have "page.more s = page.more ?m1" using mk(4) by (simp add: r)
    moreover have "completeVisit m = Inr (closeDialogue s)"
      using assms(1) True r by (simp add: completeVisit_def Let_def)
    ultimately show ?thesis by blast
  qed
  then obtain s where c: "completeVisit m = Inr (closeDialogue s)"
    and s: "page.more s = page.more ?m1" by blast
  have "controls s = controls ?m1" using more_eq_fields(1) [OF s] .
  then have ctl: "controls s = controls m" by simp
  show "threw (completeVisit m) = None" by (simp add: c)
  show "controls (final (completeVisit m)) = map_option (\<lambda>_. True) (controls m)"
    using ctl by (simp add: c closeDialogue_def set_controls_def)
  show "overlay_display (final (completeVisit m)) = DNone"
    by (simp add: c closeDialogue_def set_controls_def)
  show "\<not> isDialogueOpen (final (completeVisit m))"
    by (simp add: c closeDialogue_def set_controls_def)
  show "currentVisit (final (completeVisit m)) = None"
    by (simp add: c closeDialogue_def set_controls_def)
qed

text \<open>
  Claim C9, as the code has it. For every category \<open>c\<close> and index \<open>i\<close> into its table,
  opening the popup and closing it at once returns normally and gives the state written
  out below: the controls are enabled (when the world has controls), the popup is hidden,
  and every field is as before but the widgets of that popup, which keep the texts and the
  action of entry \<open>i\<close>. The storage, so the visited list, is unchanged. For a cabin,
  \<open>startVisit\<close> followed by \<open>closeDialogue\<close> returns normally and gives the second state
  written out below: the controls are enabled, the overlay is hidden, \<open>isDialogueOpen\<close> is
  false and \<open>currentVisit\<close> is \<open>null\<close>, the storage is unchanged, and every other field
  is as before but what \<open>startVisit\<close> wrote for the session that has ended: the cabin
  number, the step counter, the speaker's name and location, the story text, and the
  continue button's display, label and handler. \<open>closeDialogue\<close>, each \<open>closePopup\<close> and
  the escape key enable the controls in every state. \<open>completeVisit\<close> returns, hides the
  overlay, clears the session and enables the controls whenever a visit is in progress and
  the progress store is unpublished or its visited list is readable.
\<close>

theorem C9_open_close_neutral:
  assumes "i < length (experiences m c)" and "visitId < length elderVisits"
  shows "threw (openPopup c i m) = None
       \<and> closePopup c (final (openPopup c i m)) =
           m\<lparr>controls := map_option (\<lambda>_. True) (controls m),
             popups := (popups m)
               (c := (populate c (experiences m c ! i) (popups m c))
                       \<lparr>explore_onclick := Some (station_type c, i, exp_url (experiences m c ! i)),
                        popup_display := DNone\<rparr>)\<rparr>
       \<and> localStorage (closePopup c (final (openPopup c i m))) = localStorage m
       \<and> getVisitedStations (closePopup c (final (openPopup c i m))) = getVisitedStations m
       \<and> threw (startVisit elderVisits visitId m) = None
       \<and> closeDialogue (final (startVisit elderVisits visitId m)) =
           m\<lparr>currentVisit := None,
             currentCabinNumber := Num (visitId + 1),
             dialogueStep := 0,
             isDialogueOpen := False,
             controls := map_option (\<lambda>_. True) (controls m),
             overlay_display := DNone,
             speakerName := ev_name (elderVisits ! visitId),
             speakerLocation := ev_location (elderVisits ! visitId),
             mathSection_display := DNone,
             continueBtn_display := Block,
             storyText :=
               (if visitId \<in> completedVisits m then welcome_back
                else if ev_greeting (elderVisits ! visitId) = [] then storyText m
                else ev_greeting (elderVisits ! visitId) ! 0),
             continueBtn_text :=
               (if visitId \<in> completedVisits m then ''Leave ->''
                else if ev_greeting (elderVisits ! visitId) = [] then continueBtn_text m
                else ''Continue ->''),
             continueBtn_onclick := Some (if visitId \<in> completedVisits m then Close else Advance)\<rparr>
       \<and> localStorage (closeDialogue (final (startVisit elderVisits visitId m))) = localStorage m
       \<and> getVisitedStations (closeDialogue (final (startVisit elderVisits visitId m)))
           = getVisitedStations m
       \<and> controls (closeDialogue m) = map_option (\<lambda>_. True) (controls m)
       \<and> controls (closePopup c m) = map_option (\<lambda>_. True) (controls m)
       \<and> controls (escape_key m) = map_option (\<lambda>_. True) (controls m)
       \<and> (currentVisit m = Some v
            \<and> (\<not> metisPrairieProgress m \<or> getVisitedStations m = Inr xs) \<longrightarrow>
              threw (completeVisit m) = None
            \<and> controls (final (completeVisit m)) = map_option (\<lambda>_. True) (controls m)
            \<and> overlay_display (final (completeVisit m)) = DNone
            \<and> \<not> isDialogueOpen (final (completeVisit m))
            \<and> currentVisit (final (completeVisit m)) = None)"
proof -
  note oc = open_close_popup [OF assms(1)]
  note sc = start_then_close [OF assms(2), of m]
  have f1: "threw (openPopup c i m) = None" by (simp add: oc(1))
  have f2: "localStorage (closePopup c (final (openPopup c i m))) = localStorage m"
    by (simp add: oc(2))
  then have f3: "getVisitedStations (closePopup c (final (openPopup c i m))) = getVisitedStations m"
    by (simp add: getVisitedStations_def)
  have f4: "localStorage (closeDialogue (final (startVisit elderVisits visitId m))) = localStorage m"
    by (simp add: sc(2))
  then have f5: "getVisitedStations (closeDialogue (final (startVisit elderVisits visitId m)))
           = getVisitedStations m"
    by (simp add: getVisitedStations_def)
  have f6: "threw (completeVisit m) = None
            \<and> controls (final (completeVisit m)) = map_option (\<lambda>_. True) (controls m)
            \<and> overlay_display (final (completeVisit m)) = DNone
            \<and> \<not> isDialogueOpen (final (completeVisit m))
            \<and> currentVisit (final (completeVisit m)) = None"
    if "currentVisit m = Some v" "\<not> metisPrairieProgress m \<or> getVisitedStations m = Inr xs"
    using completeVisit_closes [OF that] by blast
  show ?thesis
    using f1 oc(2) f2 f3 sc f4 f5 close_paths f6
    by blast
qed

theorem C9_open_close_neutral_witness:
  "(0::nat) < length (experiences (demo_manager\<lparr>controls := Some False\<rparr>) Fireplace)
   \<and> (0::nat) < length [demo_visit]
   \<and> controls (closePopup Fireplace (final (openPopup Fireplace 0 (demo_manager\<lparr>controls := Some False\<rparr>))))
       = Some True
   \<and> localStorage (closePopup Fireplace (final (openPopup Fireplace 0 (demo_manager\<lparr>controls := Some False\<rparr>))))
       = localStorage (demo_manager\<lparr>controls := Some False\<rparr>)
   \<and> controls (closeDialogue (final (startVisit [demo_visit] 0 (demo_manager\<lparr>controls := Some False\<rparr>))))
       = Some True
   \<and> (0::nat) < length (experiences (final (startVisit [demo_visit] 0 demo_manager)) Fireplace)
   \<and> currentVisit (final (startVisit [demo_visit] 0 demo_manager)) = Some demo_visit
   \<and> getVisitedStations (final (startVisit [demo_visit] 0 demo_manager)) = Inr []
   \<and> controls (final (startVisit [demo_visit] 0 demo_manager)) = Some False
   \<and> threw (completeVisit (final (startVisit [demo_visit] 0 demo_manager))) = None
   \<and> controls (final (completeVisit (final (startVisit [demo_visit] 0 demo_manager)))) = Some True
   \<and> overlay_display (final (completeVisit (final (startVisit [demo_visit] 0 demo_manager)))) = DNone"
proof -
  have h1: "(0::nat) < length (experiences (demo_manager\<lparr>controls := Some False\<rparr>) Fireplace)"
    by (simp add: demo_manager_def IslandInteractionManager_def)
  have h2: "(0::nat) < length [demo_visit]" by simp
  note inst = C9_open_close_neutral [OF h1 h2]
  have w1: "controls (closePopup Fireplace (final (openPopup Fireplace 0 (demo_manager\<lparr>controls := Some False\<rparr>))))
          = Some True"
    using inst by simp
  have w2: "controls (closeDialogue (final (startVisit [demo_visit] 0 (demo_manager\<lparr>controls := Some False\<rparr>))))
          = Some True"
    using inst by (simp add: closeDialogue_def set_controls_def)
  have w3: "localStorage (closePopup Fireplace (final (openPopup Fireplace 0 (demo_manager\<lparr>controls := Some False\<rparr>))))
       = localStorage (demo_manager\<lparr>controls := Some False\<rparr>)"
    using inst by blast
  have g1: "(0::nat) < length (experiences (final (startVisit [demo_visit] 0 demo_manager)) Fireplace)"
    and g2: "currentVisit (final (startVisit [demo_visit] 0 demo_manager)) = Some demo_visit"
    and g3: "getVisitedStations (final (startVisit [demo_visit] 0 demo_manager)) = Inr []"
    and g4: "controls (final (startVisit [demo_visit] 0 demo_manager)) = Some False"
    by (simp_all add: demo_manager_def demo_page_def IslandInteractionManager_def startVisit_def
          set_controls_def displayCurrentStep_def getVisitedStations_def Let_def)
  note inst2 = C9_open_close_neutral [OF g1 h2, of demo_visit "[]"]
  have w4: "threw (completeVisit (final (startVisit [demo_visit] 0 demo_manager))) = None"
    and w5: "controls (final (completeVisit (final (startVisit [demo_visit] 0 demo_manager))))
          = map_option (\<lambda>_. True) (controls (final (startVisit [demo_visit] 0 demo_manager)))"
    and w6: "overlay_display (final (completeVisit (final (startVisit [demo_visit] 0 demo_manager)))) = DNone"
    using inst2 g2 g3 by blast+
  have w7: "controls (final (completeVisit (final (startVisit [demo_visit] 0 demo_manager)))) = Some True"
    using w5 g4 by simp
  show ?thesis using h1 h2 w1 w2 w3 g1 g2 g3 g4 w4 w7 w6 by blast
qed

text \<open>
  The claim as it was written says that opening and closing leaves all other state
  unchanged and that every close path, error paths included, enables the controls. On
  the sample manager the popup keeps the title and the action of the entry that was
  opened, and the dialogue keeps the cabin number and the handler of the visit that was
  started, so neither state is the state before with the controls enabled. When the
  progress value has become unreadable, the acknowledgement throws inside
  \<open>markVisited\<close> before \<open>closeDialogue\<close> is reached: the overlay stays on display and the
  controls stay disabled.
\<close>

theorem C9_state_changed_counterexample:
  "(0::nat) < length (experiences demo_manager Fireplace)
   \<and> closePopup Fireplace (final (openPopup Fireplace 0 demo_manager))
       \<noteq> demo_manager\<lparr>controls := Some True\<rparr>
   \<and> popup_title (popups demo_manager Fireplace) = ''Experience Station''
   \<and> popup_title (popups (closePopup Fireplace (final (openPopup Fireplace 0 demo_manager))) Fireplace)
       = ''The Infinite Loom''
   \<and> explore_onclick (popups demo_manager Fireplace) = None
   \<and> explore_onclick (popups (closePopup Fireplace (final (openPopup Fireplace 0 demo_manager))) Fireplace)
       = Some (''fire'', 0, ''experiences/infinite-loom.html'')
   \<and> (0::nat) < length [demo_visit]
   \<and> closeDialogue (final (startVisit [demo_visit] 0 demo_manager))
       \<noteq> demo_manager\<lparr>controls := Some True\<rparr>
   \<and> currentCabinNumber demo_manager = Null
   \<and> currentCabinNumber (closeDialogue (final (startVisit [demo_visit] 0 demo_manager))) = Num 1
   \<and> continueBtn_onclick demo_manager = None
   \<and> continueBtn_onclick (closeDialogue (final (startVisit [demo_visit] 0 demo_manager)))
       = Some Advance
   \<and> overlay_display stranded = Flex \<and> controls stranded = Some False
   \<and> continueBtn_onclick (final (showSuccess stranded)) = Some Complete
   \<and> threw (completeVisit (final (showSuccess stranded))) = Some SyntaxError
   \<and> overlay_display (final (completeVisit (final (showSuccess stranded)))) = Flex
   \<and> controls (final (completeVisit (final (showSuccess stranded)))) = Some False"
proof -
  have t1: "popup_title (popups demo_manager Fireplace) = ''Experience Station''"
    and e1: "explore_onclick (popups demo_manager Fireplace) = None"
    and n1: "currentCabinNumber demo_manager = Null"
    and o1: "continueBtn_onclick demo_manager = None"
    and v1: "(0::nat) < length (experiences demo_manager Fireplace)"
    by (simp_all add: demo_manager_def IslandInteractionManager_def)
  have t2: "popup_title (popups (closePopup Fireplace (final (openPopup Fireplace 0 demo_manager))) Fireplace)
       = ''The Infinite Loom''"
    and e2: "explore_onclick (popups (closePopup Fireplace (final (openPopup Fireplace 0 demo_manager))) Fireplace)
       = Some (''fire'', 0, ''experiences/infinite-loom.html'')"
    by (simp_all add: demo_manager_def IslandInteractionManager_def demo_experience_def
          openPopup_def closePopup_def set_controls_def populate_def or_default_def Let_def)
  have n2: "currentCabinNumber (closeDialogue (final (startVisit [demo_visit] 0 demo_manager))) = Num 1"
    and o2: "continueBtn_onclick (closeDialogue (final (startVisit [demo_visit] 0 demo_manager)))
       = Some Advance"
    by (simp_all add: demo_manager_def IslandInteractionManager_def demo_visit_def
          startVisit_def closeDialogue_def set_controls_def displayCurrentStep_def Let_def)
  have d1: "closePopup Fireplace (final (openPopup Fireplace 0 demo_manager))
       \<noteq> demo_manager\<lparr>controls := Some True\<rparr>"
  proof
    assume "closePopup Fireplace (final (openPopup Fireplace 0 demo_manager))
              = demo_manager\<lparr>controls := Some True\<rparr>"
    then have "explore_onclick (popups (closePopup Fireplace (final (openPopup Fireplace 0 demo_manager))) Fireplace)
         = explore_onclick (popups (demo_manager\<lparr>controls := Some True\<rparr>) Fireplace)"
      by simp
    then show False using e1 e2 by simp
  qed
  have d2: "closeDialogue (final (startVisit [demo_visit] 0 demo_manager))
       \<noteq> demo_manager\<lparr>controls := Some True\<rparr>"
  proof
    assume "closeDialogue (final (startVisit [demo_visit] 0 demo_manager))
              = demo_manager\<lparr>controls := Some True\<rparr>"
    then have "currentCabinNumber (closeDialogue (final (startVisit [demo_visit] 0 demo_manager)))
         = currentCabinNumber (demo_manager\<lparr>controls := Some True\<rparr>)"
      by simp
    then show False using n1 n2 by simp
  qed
  have s1: "overlay_display stranded = Flex" and s2: "controls stranded = Some False"
    and s3: "continueBtn_onclick (final (showSuccess stranded)) = Some Complete"
    by (simp_all add: stranded_def demo_manager_def IslandInteractionManager_def demo_visit_def
          startVisit_def set_controls_def displayCurrentStep_def showSuccess_def Let_def)
  have s4: "threw (completeVisit (final (showSuccess stranded))) = Some SyntaxError"
    and s5: "overlay_display (final (completeVisit (final (showSuccess stranded)))) = Flex"
    and s6: "controls (final (completeVisit (final (showSuccess stranded)))) = Some False"
    by (simp_all add: stranded_def demo_manager_def IslandInteractionManager_def demo_visit_def
          demo_page_def startVisit_def set_controls_def displayCurrentStep_def showSuccess_def
          completeVisit_def markStationVisited_def getVisitedStations_def JSON_parse_def
          is_ws_def Let_def)
  have v2: "(0::nat) < length [demo_visit]" by simp
  show ?thesis
    using v1 d1 t1 t2 e1 e2 v2 d2 n1 n2 o1 o2 s1 s2 s3 s4 s5 s6 by blast
qed

end
